theory Spec2Isabelle
  imports Main "HOL-Library.Finite_Map" "HOL-Library.Sublist"
begin

section \<open>The page tree and the file-system calls\<close>

text \<open>
  The program reads its pages through \<^verbatim>\<open>Deno.stat\<close>, \<^verbatim>\<open>Deno.readDir\<close> and
  \<^verbatim>\<open>Deno.readTextFile\<close>, always with relative path strings that start with
  \<^verbatim>\<open>./pages\<close>. The file system is a tree of named entries in directory-listing
  order, together with the working directory of the server process (a list of
  names from the root of the tree). Symbolic links and permission errors are not
  represented.
\<close>

datatype node = File string | Dir "(string \<times> node) list"

record filesystem =
  fs_root :: node
  fs_cwd :: "string list"

fun node_at :: "node \<Rightarrow> string list \<Rightarrow> node option" where
  "node_at n [] = Some n"
| "node_at (File c) (x # xs) = None"
| "node_at (Dir es) (x # xs) = (case map_of es x of None \<Rightarrow> None | Some n \<Rightarrow> node_at n xs)"

text \<open>
  Names a directory listing can hold: not empty, not \<^verbatim>\<open>.\<close> or \<^verbatim>\<open>..\<close>, free of
  the separator. A well-formed tree has only such names, none twice in a directory.
\<close>

definition valid_name :: "string \<Rightarrow> bool" where
  "valid_name n = (n \<noteq> [] \<and> n \<noteq> ''.'' \<and> n \<noteq> ''..'' \<and> CHR ''/'' \<notin> set n)"

fun wf_node :: "node \<Rightarrow> bool" where
  "wf_node (File c) = True"
| "wf_node (Dir es) =
     (distinct (map fst es) \<and> (\<forall>e \<in> set es. valid_name (fst e) \<and> wf_node (snd e)))"

text \<open>\<^verbatim>\<open>s.split("/")\<close>: the pieces between separators, empty pieces included.\<close>

fun split_on :: "char \<Rightarrow> string \<Rightarrow> string list" where
  "split_on c [] = [[]]"
| "split_on c (x # xs) =
     (if x = c then [] # split_on c xs
      else (case split_on c xs of [] \<Rightarrow> [[x]] | y # ys \<Rightarrow> (x # y) # ys))"

text \<open>
  Path resolution by the operating system, one component at a time, from the
  working directory: every component needs the location reached so far to be a
  directory; an empty component and \<^verbatim>\<open>.\<close> stay, \<^verbatim>\<open>..\<close> moves to the parent (the
  root is its own parent), a name moves to the entry of that name.
\<close>

definition path_step :: "node \<Rightarrow> string list option \<Rightarrow> string \<Rightarrow> string list option" where
  "path_step r cur part =
     (case cur of
        None \<Rightarrow> None
      | Some loc \<Rightarrow>
          (case node_at r loc of
             Some (Dir es) \<Rightarrow>
               if part = [] \<or> part = ''.'' then Some loc
               else if part = ''..'' then Some (butlast loc)
               else (case map_of es part of None \<Rightarrow> None | Some n \<Rightarrow> Some (loc @ [part]))
           | _ \<Rightarrow> None))"

definition resolve :: "filesystem \<Rightarrow> string \<Rightarrow> string list option" where
  "resolve fs p = foldl (path_step (fs_root fs)) (Some (fs_cwd fs)) (split_on CHR ''/'' p)"

text \<open>\<^verbatim>\<open>Deno.stat\<close>: the entry at the path, file or directory; \<open>None\<close> when it throws.\<close>

definition Deno_stat :: "filesystem \<Rightarrow> string \<Rightarrow> node option" where
  "Deno_stat fs p =
     (case resolve fs p of None \<Rightarrow> None | Some loc \<Rightarrow> node_at (fs_root fs) loc)"

record DirEntry =
  name :: string
  isDirectory :: bool

fun is_dir :: "node \<Rightarrow> bool" where
  "is_dir (Dir es) = True"
| "is_dir (File c) = False"

text \<open>\<^verbatim>\<open>Deno.readDir\<close>: the entries in listing order; \<open>None\<close> when it throws.\<close>

definition Deno_readDir :: "filesystem \<Rightarrow> string \<Rightarrow> DirEntry list option" where
  "Deno_readDir fs p =
     (case Deno_stat fs p of
        Some (Dir es) \<Rightarrow> Some (map (\<lambda>(n, d). \<lparr>name = n, isDirectory = is_dir d\<rparr>) es)
      | _ \<Rightarrow> None)"

text \<open>\<^verbatim>\<open>Deno.readTextFile\<close>: the content of a regular file; \<open>None\<close> when it throws.\<close>

definition Deno_readTextFile :: "filesystem \<Rightarrow> string \<Rightarrow> string option" where
  "Deno_readTextFile fs p =
     (case Deno_stat fs p of Some (File c) \<Rightarrow> Some c | _ \<Rightarrow> None)"

section \<open>PathResolver: \<^verbatim>\<open>findPageWithParams\<close> (fetch_page.js)\<close>

record PageMatch =
  pagePath :: string
  params :: "(string, string) fmap"

text \<open>\<^verbatim>\<open>entry.name.startsWith("[") && entry.name.endsWith("]")\<close> and \<^verbatim>\<open>slice(1, -1)\<close>.\<close>

definition is_param_dir :: "string \<Rightarrow> bool" where
  "is_param_dir n = (n \<noteq> [] \<and> hd n = CHR ''['' \<and> last n = CHR '']'')"

definition param_name :: "string \<Rightarrow> string" where
  "param_name n = butlast (tl n)"

text \<open>A loop over a list that returns at the first iteration yielding a result.\<close>

fun first_some :: "('a \<Rightarrow> 'b option) \<Rightarrow> 'a list \<Rightarrow> 'b option" where
  "first_some f [] = None"
| "first_some f (x # xs) = (case f x of Some r \<Rightarrow> Some r | None \<Rightarrow> first_some f xs)"

fun searchPath ::
  "filesystem \<Rightarrow> string list \<Rightarrow> string \<Rightarrow> (string, string) fmap \<Rightarrow> PageMatch option" where
  "searchPath fs [] currentPath ps =
     (let indexPath = currentPath @ ''/index.html'' in
      case Deno_stat fs indexPath of
        Some st \<Rightarrow> Some \<lparr>pagePath = indexPath, params = ps\<rparr>
      | None \<Rightarrow> None)"
| "searchPath fs (segment # remainingSegments) currentPath ps =
     (case Deno_readDir fs currentPath of
        None \<Rightarrow> None
      | Some entries \<Rightarrow>
          first_some
            (\<lambda>entry.
               if \<not> isDirectory entry then None
               else if name entry = segment then
                 searchPath fs remainingSegments (currentPath @ ''/'' @ segment) ps
               else if is_param_dir (name entry) then
                 searchPath fs remainingSegments (currentPath @ ''/'' @ name entry)
                   (fmupd (param_name (name entry)) segment ps)
               else None)
            entries)"

text \<open>
  One iteration of the loop over the entries of \<^verbatim>\<open>searchPath\<close>: what the attempt at
  one entry yields, \<open>None\<close> when the loop goes on to the next entry.
\<close>

definition try_entry ::
  "filesystem \<Rightarrow> string \<Rightarrow> string list \<Rightarrow> string \<Rightarrow> (string, string) fmap \<Rightarrow> DirEntry
     \<Rightarrow> PageMatch option" where
  "try_entry fs segment remainingSegments currentPath ps entry =
     (if \<not> isDirectory entry then None
      else if name entry = segment then
        searchPath fs remainingSegments (currentPath @ ''/'' @ segment) ps
      else if is_param_dir (name entry) then
        searchPath fs remainingSegments (currentPath @ ''/'' @ name entry)
          (fmupd (param_name (name entry)) segment ps)
      else None)"

definition exactPath :: "string \<Rightarrow> string" where
  "exactPath path = ''./pages/'' @ path @ ''/index.html''"

definition pathSegments :: "string \<Rightarrow> string list" where
  "pathSegments path = filter (\<lambda>s. s \<noteq> []) (split_on CHR ''/'' path)"

definition findPageWithParams :: "filesystem \<Rightarrow> string \<Rightarrow> PageMatch option" where
  "findPageWithParams fs path =
     (case Deno_stat fs (exactPath path) of
        Some st \<Rightarrow> Some \<lparr>pagePath = exactPath path, params = fmempty\<rparr>
      | None \<Rightarrow> searchPath fs (pathSegments path) ''./pages'' fmempty)"

text \<open>
  The page root is the directory \<^verbatim>\<open>./pages\<close> under the working directory; a path
  string lies within it when the operating system resolves it to a location below.
\<close>

definition page_root :: "filesystem \<Rightarrow> string list" where
  "page_root fs = fs_cwd fs @ [''pages'']"

definition within_page_root :: "filesystem \<Rightarrow> string \<Rightarrow> bool" where
  "within_page_root fs p =
     (case resolve fs p of None \<Rightarrow> False | Some loc \<Rightarrow> prefix (page_root fs) loc)"

text \<open>
  The route of a match of the recursive search: the directory names below the
  starting directory, one per path segment, and the bindings made on the way (a
  level whose directory name differs from the segment is a parameter level).
\<close>

definition route_path :: "string \<Rightarrow> string list \<Rightarrow> string" where
  "route_path cur dirs = cur @ concat (map (\<lambda>d. ''/'' @ d) dirs) @ ''/index.html''"

definition route_bindings :: "string list \<Rightarrow> string list \<Rightarrow> (string \<times> string) list" where
  "route_bindings dirs segs =
     map (\<lambda>(d, s). (param_name d, s)) (filter (\<lambda>(d, s). d \<noteq> s) (zip dirs segs))"

section \<open>JavaScript values\<close>

text \<open>
  Parsed documents, operation objects, strategy results and request data are
  JavaScript values. Strings are sequences of 8-bit characters, numbers are the
  integers that JavaScript writes in decimal digits (those of magnitude below
  \<open>10\<^sup>2\<^sup>1\<close>), and an object is the finite map of its own properties (property order
  plays no role below). What a library call or a property access throws is an
  \<^verbatim>\<open>Error\<close>, represented by its message; what a strategy throws is any value.
\<close>

datatype jsval =
    Undefined
  | Null
  | Bool bool
  | Num int
  | Str string
  | Arr "jsval list"
  | Obj "(string, jsval) fmap"

type_synonym thrown = string

fun truthy :: "jsval \<Rightarrow> bool" where
  "truthy Undefined = False"
| "truthy Null = False"
| "truthy (Bool b) = b"
| "truthy (Num n) = (n \<noteq> 0)"
| "truthy (Str s) = (s \<noteq> [])"
| "truthy (Arr xs) = True"
| "truthy (Obj m) = True"

fun digits :: "nat \<Rightarrow> string" where
  "digits n =
     (if n < 10 then [''0123456789'' ! n]
      else digits (n div 10) @ [''0123456789'' ! (n mod 10)])"

fun join_with :: "string \<Rightarrow> string list \<Rightarrow> string" where
  "join_with sep [] = []"
| "join_with sep [x] = x"
| "join_with sep (x # y # ys) = x @ sep @ join_with sep (y # ys)"

text \<open>
  \<^verbatim>\<open>ToString\<close>, which turns a value used in \<^verbatim>\<open>obj[value]\<close> into a property name.
\<close>

fun to_string :: "jsval \<Rightarrow> string" where
  "to_string Undefined = ''undefined''"
| "to_string Null = ''null''"
| "to_string (Bool b) = (if b then ''true'' else ''false'')"
| "to_string (Num n) = (if n < 0 then CHR ''-'' # digits (nat (- n)) else digits (nat n))"
| "to_string (Str s) = s"
| "to_string (Arr xs) =
     join_with '','' (map (\<lambda>x. if x = Undefined \<or> x = Null then [] else to_string x) xs)"
| "to_string (Obj m) = ''[object Object]''"

text \<open>
  Reading a property, \<^verbatim>\<open>v.name\<close> or \<^verbatim>\<open>const { name } = v\<close>: a \<^verbatim>\<open>TypeError\<close> on
  \<^verbatim>\<open>null\<close> and \<^verbatim>\<open>undefined\<close>. The names read by the pipeline (\<^verbatim>\<open>type\<close>, \<^verbatim>\<open>key\<close>,
  \<^verbatim>\<open>fetch_data\<close>, \<^verbatim>\<open>send_data\<close>, \<^verbatim>\<open>message\<close>) are no built-in property of strings,
  arrays, numbers or booleans, which therefore yield \<^verbatim>\<open>undefined\<close>.
\<close>

fun get_prop :: "jsval \<Rightarrow> string \<Rightarrow> thrown + jsval" where
  "get_prop Undefined k = Inl (''TypeError: Cannot read properties of undefined (reading '' @ k @ '')'')"
| "get_prop Null k = Inl (''TypeError: Cannot read properties of null (reading '' @ k @ '')'')"
| "get_prop (Obj m) k = Inr (case fmlookup m k of None \<Rightarrow> Undefined | Some v \<Rightarrow> v)"
| "get_prop v k = Inr Undefined"

text \<open>The own enumerable properties copied by a spread \<^verbatim>\<open>{ ...v }\<close>.\<close>

fun own_entries :: "jsval \<Rightarrow> (string, jsval) fmap" where
  "own_entries (Obj m) = m"
| "own_entries (Arr xs) = fmap_of_list (zip (map digits [0..<length xs]) xs)"
| "own_entries (Str s) = fmap_of_list (zip (map digits [0..<length s]) (map (\<lambda>c. Str [c]) s))"
| "own_entries v = fmempty"

text \<open>\<^verbatim>\<open>Object.keys\<close>: a \<^verbatim>\<open>TypeError\<close> on \<^verbatim>\<open>null\<close> and \<^verbatim>\<open>undefined\<close>.\<close>

fun Object_keys :: "jsval \<Rightarrow> thrown + string fset" where
  "Object_keys Undefined = Inl ''TypeError: Cannot convert undefined or null to object''"
| "Object_keys Null = Inl ''TypeError: Cannot convert undefined or null to object''"
| "Object_keys v = Inr (fmdom (own_entries v))"

section \<open>StrategyDispatcher and ConfigPipeline (fetch_data.js, handle_post.js)\<close>

text \<open>
  A strategy takes the operation object and the request context and returns a
  value or throws one (\<open>Inl\<close>, the thrown value; a rejected promise is a throw at
  the \<^verbatim>\<open>await\<close>). The registry \<^verbatim>\<open>dataStrategies\<close> is a plain object (an object literal
  in server.js and in the tests): the finite map of its own properties, with the
  members of \<^verbatim>\<open>Object.prototype\<close> behind it. \<^verbatim>\<open>dataStrategies[type]\<close> finds an own
  property first and an inherited member otherwise.
\<close>

type_synonym strategy = "jsval \<Rightarrow> jsval \<Rightarrow> jsval + jsval"

type_synonym registry = "(string, strategy) fmap"

definition js_error :: "string \<Rightarrow> jsval" where
  "js_error message = Obj (fmupd ''message'' (Str message) fmempty)"

text \<open>
  The members of \<^verbatim>\<open>Object.prototype\<close>, called as \<^verbatim>\<open>strategy(config, context)\<close>, that is
  with \<^verbatim>\<open>this\<close> undefined: \<^verbatim>\<open>Object(config)\<close> returns an object as it is (and wraps a
  primitive, where the wrapper is represented by the primitive itself);
  \<^verbatim>\<open>toString\<close> answers for \<^verbatim>\<open>undefined\<close>; \<^verbatim>\<open>isPrototypeOf\<close> is false of a primitive
  and converts \<^verbatim>\<open>this\<close> to an object otherwise; the others convert \<^verbatim>\<open>this\<close> to an
  object, which throws a \<^verbatim>\<open>TypeError\<close>. (Deno removes \<^verbatim>\<open>__proto__\<close> from
  \<^verbatim>\<open>Object.prototype\<close>.)
\<close>

definition this_undefined :: jsval where
  "this_undefined = js_error ''Cannot convert undefined or null to object''"

definition prototype_members :: "(string \<times> strategy) list" where
  "prototype_members =
     [(''constructor'', \<lambda>config context. Inr config),
      (''toString'', \<lambda>config context. Inr (Str ''[object Undefined]'')),
      (''isPrototypeOf'', \<lambda>config context.
          (case config of
             Obj m \<Rightarrow> Inl this_undefined
           | Arr xs \<Rightarrow> Inl this_undefined
           | _ \<Rightarrow> Inr (Bool False))),
      (''toLocaleString'', \<lambda>config context. Inl this_undefined),
      (''valueOf'', \<lambda>config context. Inl this_undefined),
      (''hasOwnProperty'', \<lambda>config context. Inl this_undefined),
      (''propertyIsEnumerable'', \<lambda>config context. Inl this_undefined),
      (''__defineGetter__'', \<lambda>config context. Inl this_undefined),
      (''__defineSetter__'', \<lambda>config context. Inl this_undefined),
      (''__lookupGetter__'', \<lambda>config context. Inl this_undefined),
      (''__lookupSetter__'', \<lambda>config context. Inl this_undefined)]"

definition registry_get :: "registry \<Rightarrow> string \<Rightarrow> strategy option" where
  "registry_get dataStrategies type =
     (case fmlookup dataStrategies type of
        Some strategy \<Rightarrow> Some strategy
      | None \<Rightarrow> map_of prototype_members type)"

text \<open>
  The template engine, the YAML parser and the string methods whose result
  depends on Unicode tables are external, passed as functions that return the
  result or the thrown error: \<open>hb_compile L t d\<close> is \<^verbatim>\<open>handlebars.compile(t)(d)\<close> in
  fetch_data.js and handle_post.js, \<open>hb_render\<close> the same call on the instance of
  render_page.js (which has the layouts and partials registered), the others are
  \<^verbatim>\<open>parse\<close> of std/yaml, \<^verbatim>\<open>JSON.parse\<close>, \<^verbatim>\<open>JSON.stringify\<close> (which throws on a value
  it cannot serialise), the pairs of \<^verbatim>\<open>new URLSearchParams(body)\<close>, and
  \<^verbatim>\<open>String.prototype.trim\<close>, \<^verbatim>\<open>toLowerCase\<close> and \<^verbatim>\<open>toUpperCase\<close>. Calls of the
  injected logger are left out.
\<close>

record libs =
  hb_compile :: "string \<Rightarrow> jsval \<Rightarrow> thrown + string"
  yaml_parse :: "string \<Rightarrow> thrown + jsval"
  hb_render :: "string \<Rightarrow> jsval \<Rightarrow> thrown + string"
  json_parse :: "string \<Rightarrow> thrown + jsval"
  json_stringify :: "jsval \<Rightarrow> thrown + string"
  url_search_params :: "string \<Rightarrow> (string \<times> string) list"
  str_trim :: "string \<Rightarrow> string"
  str_toLowerCase :: "string \<Rightarrow> string"
  str_toUpperCase :: "string \<Rightarrow> string"

text \<open>
  The \<^verbatim>\<open>catch\<close> of the dispatcher reads \<^verbatim>\<open>error.message\<close> for its log entry, which
  itself throws when the value caught is \<^verbatim>\<open>undefined\<close> or \<^verbatim>\<open>null\<close>.
\<close>

definition executeFetchStrategy :: "jsval \<Rightarrow> jsval \<Rightarrow> registry \<Rightarrow> thrown + jsval" where
  "executeFetchStrategy config context dataStrategies =
     (case get_prop config ''type'' of
        Inl e \<Rightarrow> Inl e
      | Inr type \<Rightarrow>
          (case registry_get dataStrategies (to_string type) of
             None \<Rightarrow> Inr Undefined
           | Some strategy \<Rightarrow>
               (case strategy config context of
                  Inl error \<Rightarrow>
                    (case get_prop error ''message'' of
                       Inl e \<Rightarrow> Inl e
                     | Inr message \<Rightarrow> Inr Undefined)
                | Inr result \<Rightarrow> Inr result)))"

text \<open>
  The loop \<^verbatim>\<open>for (const config of fetchConfig)\<close>, from the results collected so far.
  The branch for a single operation object has the text of one iteration.
\<close>

fun fetch_loop ::
  "jsval list \<Rightarrow> jsval \<Rightarrow> registry \<Rightarrow> (string, jsval) fmap \<Rightarrow> thrown + (string, jsval) fmap" where
  "fetch_loop [] context dataStrategies results = Inr results"
| "fetch_loop (config # rest) context dataStrategies results =
     (case executeFetchStrategy config context dataStrategies of
        Inl e \<Rightarrow> Inl e
      | Inr result \<Rightarrow>
          (case get_prop config ''key'' of
             Inl e \<Rightarrow> Inl e
           | Inr key \<Rightarrow>
               fetch_loop rest context dataStrategies
                 (if truthy key \<and> result \<noteq> Undefined then fmupd (to_string key) result results
                  else results)))"

definition fetchDataStrategies ::
  "jsval \<Rightarrow> jsval \<Rightarrow> registry \<Rightarrow> thrown + (string, jsval) fmap" where
  "fetchDataStrategies fetchConfig context dataStrategies =
     (if \<not> truthy fetchConfig then Inr fmempty
      else (case fetchConfig of
              Arr configs \<Rightarrow> fetch_loop configs context dataStrategies fmempty
            | Obj m \<Rightarrow> fetch_loop [fetchConfig] context dataStrategies fmempty
            | _ \<Rightarrow> Inr fmempty))"

text \<open>
  \<^verbatim>\<open>executeSendStrategy\<close> and \<^verbatim>\<open>sendDataStrategies\<close> of handle_post.js have the text
  of their fetch counterparts, log messages apart.
\<close>

definition executeSendStrategy :: "jsval \<Rightarrow> jsval \<Rightarrow> registry \<Rightarrow> thrown + jsval" where
  "executeSendStrategy config context dataStrategies =
     (case get_prop config ''type'' of
        Inl e \<Rightarrow> Inl e
      | Inr type \<Rightarrow>
          (case registry_get dataStrategies (to_string type) of
             None \<Rightarrow> Inr Undefined
           | Some strategy \<Rightarrow>
               (case strategy config context of
                  Inl error \<Rightarrow>
                    (case get_prop error ''message'' of
                       Inl e \<Rightarrow> Inl e
                     | Inr message \<Rightarrow> Inr Undefined)
                | Inr result \<Rightarrow> Inr result)))"

fun send_loop ::
  "jsval list \<Rightarrow> jsval \<Rightarrow> registry \<Rightarrow> (string, jsval) fmap \<Rightarrow> thrown + (string, jsval) fmap" where
  "send_loop [] context dataStrategies results = Inr results"
| "send_loop (config # rest) context dataStrategies results =
     (case executeSendStrategy config context dataStrategies of
        Inl e \<Rightarrow> Inl e
      | Inr result \<Rightarrow>
          (case get_prop config ''key'' of
             Inl e \<Rightarrow> Inl e
           | Inr key \<Rightarrow>
               send_loop rest context dataStrategies
                 (if truthy key \<and> result \<noteq> Undefined then fmupd (to_string key) result results
                  else results)))"

definition sendDataStrategies ::
  "jsval \<Rightarrow> jsval \<Rightarrow> registry \<Rightarrow> thrown + (string, jsval) fmap" where
  "sendDataStrategies sendConfig context dataStrategies =
     (if \<not> truthy sendConfig then Inr fmempty
      else (case sendConfig of
              Arr configs \<Rightarrow> send_loop configs context dataStrategies fmempty
            | Obj m \<Rightarrow> send_loop [sendConfig] context dataStrategies fmempty
            | _ \<Rightarrow> Inr fmempty))"

text \<open>The context objects \<^verbatim>\<open>{ params, query }\<close> and \<^verbatim>\<open>{ params, query, formData }\<close>.\<close>

definition read_context :: "jsval \<Rightarrow> jsval \<Rightarrow> (string, jsval) fmap" where
  "read_context ps query = fmupd ''query'' query (fmupd ''params'' ps fmempty)"

definition write_context :: "jsval \<Rightarrow> jsval \<Rightarrow> jsval \<Rightarrow> (string, jsval) fmap" where
  "write_context ps query formData =
     fmupd ''formData'' formData (fmupd ''query'' query (fmupd ''params'' ps fmempty))"

text \<open>The \<^verbatim>\<open>try\<close> block of \<^verbatim>\<open>fetchData\<close>; \<open>Inl\<close> is what its \<^verbatim>\<open>catch\<close> receives.\<close>

definition fetchData_try ::
  "libs \<Rightarrow> string \<Rightarrow> jsval \<Rightarrow> jsval \<Rightarrow> registry \<Rightarrow> thrown + jsval" where
  "fetchData_try L yamlContent ps query dataStrategies =
     (case hb_compile L yamlContent (Obj (read_context ps query)) of
        Inl e \<Rightarrow> Inl e
      | Inr processedYaml \<Rightarrow>
          (case yaml_parse L processedYaml of
             Inl e \<Rightarrow> Inl e
           | Inr yamlData \<Rightarrow>
               (case get_prop yamlData ''fetch_data'' of
                  Inl e \<Rightarrow> Inl e
                | Inr fetch_data \<Rightarrow>
                    if truthy fetch_data then
                      (case fetchDataStrategies fetch_data (Obj (read_context ps query))
                              dataStrategies of
                         Inl e \<Rightarrow> Inl e
                       | Inr fetchedData \<Rightarrow>
                           Inr (Obj (fmupd ''query'' query (fmupd ''params'' ps
                                  (fmdrop ''fetch_data'' (own_entries yamlData) ++\<^sub>f fetchedData)))))
                    else
                      Inr (Obj (fmupd ''query'' query (fmupd ''params'' ps
                             (own_entries yamlData)))))))"

definition fetchData ::
  "libs \<Rightarrow> string option \<Rightarrow> jsval \<Rightarrow> jsval \<Rightarrow> registry \<Rightarrow> thrown + jsval" where
  "fetchData L yamlContent ps query dataStrategies =
     (case yamlContent of
        None \<Rightarrow> Inr (Obj (read_context ps query))
      | Some text \<Rightarrow>
          if text = [] then Inr (Obj (read_context ps query))
          else (case fetchData_try L text ps query dataStrategies of
                  Inl error \<Rightarrow> Inr (Obj (read_context ps query))
                | Inr finalData \<Rightarrow> Inr finalData))"

definition handlePost_try ::
  "libs \<Rightarrow> string \<Rightarrow> jsval \<Rightarrow> jsval \<Rightarrow> jsval \<Rightarrow> registry \<Rightarrow> thrown + jsval" where
  "handlePost_try L yamlContent ps query formData dataStrategies =
     (case hb_compile L yamlContent (Obj (write_context ps query formData)) of
        Inl e \<Rightarrow> Inl e
      | Inr processedYaml \<Rightarrow>
          (case yaml_parse L processedYaml of
             Inl e \<Rightarrow> Inl e
           | Inr yamlData \<Rightarrow>
               (case get_prop yamlData ''send_data'' of
                  Inl e \<Rightarrow> Inl e
                | Inr send_data \<Rightarrow>
                    if truthy send_data then
                      (case sendDataStrategies send_data (Obj (write_context ps query formData))
                              dataStrategies of
                         Inl e \<Rightarrow> Inl e
                       | Inr sentData \<Rightarrow>
                           Inr (Obj (fmupd ''formData'' formData (fmupd ''query'' query
                                  (fmupd ''params'' ps
                                  (fmdrop ''send_data'' (own_entries yamlData) ++\<^sub>f sentData))))))
                    else
                      Inr (Obj (fmupd ''formData'' formData (fmupd ''query'' query
                             (fmupd ''params'' ps (own_entries yamlData))))))))"

definition handlePost ::
  "libs \<Rightarrow> string option \<Rightarrow> jsval \<Rightarrow> jsval \<Rightarrow> jsval \<Rightarrow> registry \<Rightarrow> thrown + jsval" where
  "handlePost L yamlContent ps query formData dataStrategies =
     (case yamlContent of
        None \<Rightarrow> Inr (Obj (write_context ps query formData))
      | Some text \<Rightarrow>
          if text = [] then Inr (Obj (write_context ps query formData))
          else (case handlePost_try L text ps query formData dataStrategies of
                  Inl error \<Rightarrow> Inr (Obj (write_context ps query formData))
                | Inr finalData \<Rightarrow> Inr finalData))"

section \<open>RequestOrchestrator (fetch_page.js, render_page.js, handle_post.js)\<close>

text \<open>\<^verbatim>\<open>s.replace(pat, rep)\<close> with a string pattern: the first occurrence only.\<close>

fun replace_first :: "string \<Rightarrow> string \<Rightarrow> string \<Rightarrow> string" where
  "replace_first pat rep [] = (if pat = [] then rep else [])"
| "replace_first pat rep (c # cs) =
     (if prefix pat (c # cs) then rep @ drop (length pat) (c # cs)
      else c # replace_first pat rep cs)"

fun str_includes :: "string \<Rightarrow> string \<Rightarrow> bool" where
  "str_includes [] pat = (pat = [])"
| "str_includes (c # cs) pat = (prefix pat (c # cs) \<or> str_includes cs pat)"

definition params_val :: "(string, string) fmap \<Rightarrow> jsval" where
  "params_val ps = Obj (fmmap Str ps)"

datatype PageResult =
    NotFound
  | Found (pageContent: string) (yamlContent: "string option") (resultParams: "(string, string) fmap")

definition fetchPage :: "filesystem \<Rightarrow> string \<Rightarrow> PageResult" where
  "fetchPage fs path =
     (case findPageWithParams fs path of
        None \<Rightarrow> NotFound
      | Some match \<Rightarrow>
          (case Deno_readTextFile fs (pagePath match) of
             None \<Rightarrow> NotFound
           | Some content \<Rightarrow>
               Found content
                 (Deno_readTextFile fs
                    (replace_first ''/index.html'' [] (pagePath match) @ ''/get.yaml''))
                 (params match)))"

text \<open>
  A response: its status, its body and the \<^verbatim>\<open>content-type\<close> header given to the
  \<^verbatim>\<open>Response\<close> constructor.
\<close>

record response =
  status :: nat
  body :: string
  content_type :: "string option"

text \<open>
  \<^verbatim>\<open>pageContent.trim().toLowerCase().startsWith("<!doctype html")\<close> and the title
  \<^verbatim>\<open>path ? path.charAt(0).toUpperCase() + path.slice(1) : "Home"\<close>.
\<close>

definition isPureHtml :: "libs \<Rightarrow> string \<Rightarrow> bool" where
  "isPureHtml L content = prefix ''<!doctype html'' (str_toLowerCase L (str_trim L content))"

definition page_title :: "libs \<Rightarrow> string \<Rightarrow> string" where
  "page_title L path = (case path of [] \<Rightarrow> ''Home'' | c # cs \<Rightarrow> str_toUpperCase L [c] @ cs)"

text \<open>
  The data of a page: the pipeline's output, or the context when there is no
  config. (\<^verbatim>\<open>ensureTemplatesLoaded\<close>, which comes first in \<^verbatim>\<open>renderPage\<close>, catches its
  own failures; what it registers is part of \<open>hb_render\<close>.)
\<close>

definition page_data ::
  "libs \<Rightarrow> string option \<Rightarrow> jsval \<Rightarrow> jsval \<Rightarrow> registry \<Rightarrow> thrown + jsval" where
  "page_data L yaml ps query dataStrategies =
     (case yaml of
        None \<Rightarrow> Inr (Obj (read_context ps query))
      | Some text \<Rightarrow>
          if text = [] then Inr (Obj (read_context ps query))
          else fetchData L yaml ps query dataStrategies)"

text \<open>
  The two rendering steps: the body against the data, then the layout against
  \<^verbatim>\<open>{ title: templateData.title, body: renderedBody, ...data }\<close>, where
  \<^verbatim>\<open>templateData\<close> is \<^verbatim>\<open>{ title, body: pageContent, ...data }\<close>.
\<close>

definition templateData :: "libs \<Rightarrow> string \<Rightarrow> string \<Rightarrow> jsval \<Rightarrow> (string, jsval) fmap" where
  "templateData L path content data =
     fmupd ''body'' (Str content) (fmupd ''title'' (Str (page_title L path)) fmempty)
       ++\<^sub>f own_entries data"

definition layoutData ::
  "libs \<Rightarrow> string \<Rightarrow> string \<Rightarrow> string \<Rightarrow> jsval \<Rightarrow> (string, jsval) fmap" where
  "layoutData L path content renderedBody data =
     fmupd ''body'' (Str renderedBody)
       (fmupd ''title''
          (case fmlookup (templateData L path content data) ''title'' of
             None \<Rightarrow> Undefined
           | Some v \<Rightarrow> v)
          fmempty)
       ++\<^sub>f own_entries data"

definition render_templates :: "libs \<Rightarrow> string \<Rightarrow> string \<Rightarrow> jsval \<Rightarrow> thrown + string" where
  "render_templates L path content data =
     (case hb_render L content data of
        Inl e \<Rightarrow> Inl e
      | Inr renderedBody \<Rightarrow>
          hb_render L ''{{> layout}}'' (Obj (layoutData L path content renderedBody data)))"

definition error_response :: "thrown \<Rightarrow> response" where
  "error_response message =
     \<lparr>status = 500, body = ''Internal server error: '' @ message, content_type = None\<rparr>"

definition renderPage :: "libs \<Rightarrow> filesystem \<Rightarrow> string \<Rightarrow> jsval \<Rightarrow> registry \<Rightarrow> response" where
  "renderPage L fs path query dataStrategies =
     (case fetchPage fs path of
        NotFound \<Rightarrow> \<lparr>status = 404, body = ''Page not found'', content_type = None\<rparr>
      | Found content yaml ps \<Rightarrow>
          (case page_data L yaml (params_val ps) query dataStrategies of
             Inl e \<Rightarrow> error_response e
           | Inr data \<Rightarrow>
               if isPureHtml L content then
                 \<lparr>status = 200, body = content, content_type = Some ''text/html''\<rparr>
               else
                 (case render_templates L path content data of
                    Inl e \<Rightarrow> error_response e
                  | Inr html \<Rightarrow>
                      \<lparr>status = 200, body = html, content_type = Some ''text/html''\<rparr>)))"

definition isPostAllowed :: "filesystem \<Rightarrow> string \<Rightarrow> string \<Rightarrow> bool" where
  "isPostAllowed fs pPath requestPath =
     (case Deno_stat fs (replace_first ''/index.html'' [] pPath @ ''/post.yaml'') of
        Some st \<Rightarrow> True
      | None \<Rightarrow> False)"

definition loadPostYaml :: "filesystem \<Rightarrow> string \<Rightarrow> string option" where
  "loadPostYaml fs pPath =
     Deno_readTextFile fs (replace_first ''/index.html'' [] pPath @ ''/post.yaml'')"

text \<open>
  A request: its \<^verbatim>\<open>content-type\<close> header, the text of its body (\<^verbatim>\<open>req.text()\<close>) and
  what \<^verbatim>\<open>req.formData()\<close> gives for it, the decoded fields or the \<^verbatim>\<open>TypeError\<close> it
  throws on a body that is no well-formed form data.
\<close>

datatype form_value = TextField string | FileField string string

record request =
  req_content_type :: "string option"
  req_text :: string
  req_formData :: "thrown + (string \<times> form_value) list"

fun form_value_val :: "form_value \<Rightarrow> jsval" where
  "form_value_val (TextField s) = Str s"
| "form_value_val (FileField filename ftype) =
     Obj (fmupd ''type'' (Str ftype) (fmupd ''filename'' (Str filename) fmempty))"

definition header_includes :: "string option \<Rightarrow> string \<Rightarrow> bool" where
  "header_includes h pat = (case h of None \<Rightarrow> False | Some v \<Rightarrow> str_includes v pat)"

definition parseFormData :: "libs \<Rightarrow> request \<Rightarrow> thrown + jsval" where
  "parseFormData L req =
     (if header_includes (req_content_type req) ''application/json'' then
        (case json_parse L (req_text req) of
           Inl e \<Rightarrow> Inr (Obj fmempty)
         | Inr v \<Rightarrow> Inr v)
      else if header_includes (req_content_type req) ''application/x-www-form-urlencoded'' then
        Inr (Obj (foldl (\<lambda>result (key, v). fmupd key (Str v) result) fmempty
                    (url_search_params L (req_text req))))
      else if header_includes (req_content_type req) ''multipart/form-data'' then
        (case req_formData req of
           Inl e \<Rightarrow> Inl e
         | Inr parts \<Rightarrow>
             Inr (Obj (foldl (\<lambda>result (key, v). fmupd key (form_value_val v) result) fmempty
                         parts)))
      else Inr (Obj fmempty))"

text \<open>
  \<^verbatim>\<open>handlePostRequest\<close> has no \<^verbatim>\<open>try\<close>: \<open>Inl\<close> is an exception that leaves the function.
\<close>

definition handlePostRequest ::
  "libs \<Rightarrow> filesystem \<Rightarrow> string \<Rightarrow> request \<Rightarrow> registry \<Rightarrow> thrown + response" where
  "handlePostRequest L fs path req dataStrategies =
     (case findPageWithParams fs path of
        None \<Rightarrow> Inr \<lparr>status = 404, body = ''Page not found'', content_type = None\<rparr>
      | Some match \<Rightarrow>
          if \<not> isPostAllowed fs (pagePath match) path then
            Inr \<lparr>status = 405, body = ''Method not allowed'', content_type = None\<rparr>
          else
            (case parseFormData L req of
               Inl e \<Rightarrow> Inl e
             | Inr formData \<Rightarrow>
                 (case Object_keys formData of
                    Inl e \<Rightarrow> Inl e
                  | Inr formDataKeys \<Rightarrow>
                      (case (case loadPostYaml fs (pagePath match) of
                               None \<Rightarrow> Inr (Obj (write_context (params_val (params match))
                                                    (Obj fmempty) formData))
                             | Some text \<Rightarrow>
                                 if text = [] then
                                   Inr (Obj (write_context (params_val (params match))
                                               (Obj fmempty) formData))
                                 else handlePost L (Some text) (params_val (params match))
                                        (Obj fmempty) formData dataStrategies) of
                         Inl e \<Rightarrow> Inl e
                       | Inr data \<Rightarrow>
                           (case json_stringify L data of
                              Inl e \<Rightarrow> Inl e
                            | Inr json \<Rightarrow>
                                Inr \<lparr>status = 200, body = json,
                                     content_type = Some ''application/json''\<rparr>)))))"

section \<open>Example page trees\<close>

text \<open>
  Small page trees on which the properties below are evaluated. The server runs
  in \<^verbatim>\<open>/srv\<close>. In \<open>fs_escape\<close> a directory \<^verbatim>\<open>secret\<close> lies beside \<^verbatim>\<open>pages\<close>; in
  \<open>fs_order\<close> the parameter directory \<^verbatim>\<open>[q]\<close> is listed before the directory \<^verbatim>\<open>a\<close>;
  in \<open>fs_twice\<close> the parameter name \<^verbatim>\<open>id\<close> occurs at two levels; in \<open>fs_both\<close> the
  path \<^verbatim>\<open>about\<close> has an exact and a parameterized match.
\<close>

definition fs_escape :: filesystem where
  "fs_escape = \<lparr>fs_root = Dir [(''srv'', Dir
       [(''pages'', Dir [(''[id]'', Dir [(''index.html'', File ''page'')])]),
        (''secret'', Dir [(''index.html'', File ''outside'')])])],
     fs_cwd = [''srv'']\<rparr>"

definition fs_order :: filesystem where
  "fs_order = \<lparr>fs_root = Dir [(''srv'', Dir
       [(''pages'', Dir
          [(''[q]'', Dir [(''b'', Dir [(''index.html'', File ''via q'')])]),
           (''a'', Dir [(''[p]'', Dir [(''index.html'', File ''via a'')])])])])],
     fs_cwd = [''srv'']\<rparr>"

definition fs_twice :: filesystem where
  "fs_twice = \<lparr>fs_root = Dir [(''srv'', Dir
       [(''pages'', Dir
          [(''[id]'', Dir [(''x'', Dir [(''[id]'', Dir [(''index.html'', File ''p'')])])])])])],
     fs_cwd = [''srv'']\<rparr>"

definition fs_both :: filesystem where
  "fs_both = \<lparr>fs_root = Dir [(''srv'', Dir
       [(''pages'', Dir
          [(''[id]'', Dir [(''index.html'', File ''by id'')]),
           (''about'', Dir [(''index.html'', File ''about'')])])])],
     fs_cwd = [''srv'']\<rparr>"

section \<open>Notions used to state the pipeline's properties\<close>

text \<open>
  The left-to-right shallow merge of a list of sources, later sources winning on a
  key collision.
\<close>

definition shallow_merge :: "('k, 'v) fmap list \<Rightarrow> ('k, 'v) fmap" where
  "shallow_merge sources = foldl (\<lambda>acc src. acc ++\<^sub>f src) fmempty sources"

text \<open>
  An operation is collected under the name \<open>k\<close> when its dispatch returns a defined
  result and its key is truthy and has that name. The declared operations of a
  reserved key's value are the elements of a list, or the single object.
\<close>

definition collects :: "jsval \<Rightarrow> jsval \<Rightarrow> registry \<Rightarrow> string \<Rightarrow> bool" where
  "collects config context dataStrategies k =
     (case get_prop config ''key'' of
        Inl e \<Rightarrow> False
      | Inr key \<Rightarrow>
          (case executeFetchStrategy config context dataStrategies of
             Inl e \<Rightarrow> False
           | Inr result \<Rightarrow> truthy key \<and> result \<noteq> Undefined \<and> to_string key = k))"

fun operations :: "jsval \<Rightarrow> jsval list" where
  "operations (Arr configs) = configs"
| "operations (Obj m) = [Obj m]"
| "operations v = []"

text \<open>A field of the pipeline's output.\<close>

definition output_field :: "thrown + jsval \<Rightarrow> string \<Rightarrow> jsval option" where
  "output_field r k = (case r of Inl e \<Rightarrow> None | Inr out \<Rightarrow> fmlookup (own_entries out) k)"

section \<open>Example documents, libraries, strategies and requests\<close>

text \<open>
  Stand-ins for the external libraries, defined on the few texts the examples use:
  the unclosed block \<^verbatim>\<open>{{#if}}\<close> is a template error and the other texts, which have
  no reference in them, expand to themselves; the YAML texts are flow mappings with the values
  the parser gives them, any other text is a parse error; \<^verbatim>\<open>JSON.parse("null")\<close> is
  \<^verbatim>\<open>null\<close>; the string methods are those of ASCII, with which JavaScript agrees on
  ASCII texts. The registry is \<^verbatim>\<open>{ echo, fail, reject }\<close>: \<^verbatim>\<open>echo\<close> returns the
  operation's \<^verbatim>\<open>value\<close> (nothing when there is none), \<^verbatim>\<open>fail\<close> throws an \<^verbatim>\<open>Error\<close>,
  \<^verbatim>\<open>reject\<close> returns \<^verbatim>\<open>Promise.reject()\<close>, a rejection with \<^verbatim>\<open>undefined\<close>.
\<close>

definition is_space :: "char \<Rightarrow> bool" where
  "is_space c = (c \<in> set [CHR '' '', CHR 0x09, CHR 0x0A, CHR 0x0B, CHR 0x0C, CHR 0x0D])"

definition ascii_trim :: "string \<Rightarrow> string" where
  "ascii_trim s = rev (dropWhile is_space (rev (dropWhile is_space s)))"

definition ascii_lower :: "char \<Rightarrow> char" where
  "ascii_lower c =
     (case map_of (zip ''ABCDEFGHIJKLMNOPQRSTUVWXYZ'' ''abcdefghijklmnopqrstuvwxyz'') c of
        None \<Rightarrow> c
      | Some l \<Rightarrow> l)"

definition ascii_upper :: "char \<Rightarrow> char" where
  "ascii_upper c =
     (case map_of (zip ''abcdefghijklmnopqrstuvwxyz'' ''ABCDEFGHIJKLMNOPQRSTUVWXYZ'') c of
        None \<Rightarrow> c
      | Some u \<Rightarrow> u)"


definition doc_falsy :: jsval where
  "doc_falsy = Obj (fmap_of_list [(''fetch_data'', Bool False), (''title'', Str ''x'')])"

definition doc_null_send :: jsval where
  "doc_null_send = Obj (fmap_of_list [(''send_data'', Null), (''note'', Str ''x'')])"

definition doc_reserved_op :: jsval where
  "doc_reserved_op = Obj (fmap_of_list
     [(''fetch_data'', Obj (fmap_of_list
         [(''type'', Str ''echo''), (''key'', Str ''fetch_data''), (''value'', Str ''v'')]))])"

definition doc_two_ops :: jsval where
  "doc_two_ops = Obj (fmap_of_list
     [(''fetch_data'', Arr
         [Obj (fmap_of_list [(''type'', Str ''echo''), (''key'', Str ''k''), (''value'', Str ''a'')]),
          Obj (fmap_of_list [(''type'', Str ''echo''), (''key'', Str ''k''), (''value'', Str ''b'')])]),
      (''params'', Str ''x'')])"

definition doc_send :: jsval where
  "doc_send = Obj (fmap_of_list
     [(''send_data'', Obj (fmap_of_list
         [(''type'', Str ''echo''), (''key'', Str ''k''), (''value'', Str ''v'')])),
      (''note'', Str ''x'')])"

definition demo_yaml :: "string \<Rightarrow> thrown + jsval" where
  "demo_yaml s =
     (if s = ''{fetch_data: false, title: x}'' then Inr doc_falsy
      else if s = ''{send_data: null, note: x}'' then Inr doc_null_send
      else if s = ''{fetch_data: {type: echo, key: fetch_data, value: v}}'' then Inr doc_reserved_op
      else if s = ''{fetch_data: [{type: echo, key: k, value: a}, {type: echo, key: k, value: b}], params: x}''
        then Inr doc_two_ops
      else if s = ''{send_data: {type: echo, key: k, value: v}, note: x}'' then Inr doc_send
      else Inl ''YAMLError'')"

definition demo_template :: "string \<Rightarrow> jsval \<Rightarrow> thrown + string" where
  "demo_template t d = (if t = ''{{#if}}'' then Inl ''Parse error'' else Inr t)"

definition demo_json :: "string \<Rightarrow> thrown + jsval" where
  "demo_json s =
     (if s = ''null'' then Inr Null
      else if s = ''{}'' then Inr (Obj fmempty)
      else Inl ''SyntaxError'')"

definition demo_libs :: libs where
  "demo_libs = \<lparr>hb_compile = demo_template, yaml_parse = demo_yaml, hb_render = demo_template,
     json_parse = demo_json, json_stringify = (\<lambda>v. Inr ''{}''), url_search_params = (\<lambda>s. []),
     str_trim = ascii_trim, str_toLowerCase = map ascii_lower, str_toUpperCase = map ascii_upper\<rparr>"

definition demo_strategies :: registry where
  "demo_strategies = fmap_of_list
     [(''echo'', \<lambda>config context.
         (case get_prop config ''value'' of Inl e \<Rightarrow> Inl (js_error e) | Inr v \<Rightarrow> Inr v)),
      (''fail'', \<lambda>config context. Inl (js_error ''boom'')),
      (''reject'', \<lambda>config context. Inl Undefined)]"

definition two_ops_text :: string where
  "two_ops_text =
     ''{fetch_data: [{type: echo, key: k, value: a}, {type: echo, key: k, value: b}], params: x}''"

definition op_a :: jsval where
  "op_a = Obj (fmap_of_list [(''type'', Str ''echo''), (''key'', Str ''k''), (''value'', Str ''a'')])"

definition op_b :: jsval where
  "op_b = Obj (fmap_of_list [(''type'', Str ''echo''), (''key'', Str ''k''), (''value'', Str ''b'')])"







definition send_text :: string where
  "send_text = ''{send_data: {type: echo, key: k, value: v}, note: x}''"

definition op_send :: jsval where
  "op_send = Obj (fmap_of_list [(''type'', Str ''echo''), (''key'', Str ''k''), (''value'', Str ''v'')])"

text \<open>
  A site whose page \<^verbatim>\<open>about\<close> has a directory in the place of its content file,
  whose page \<^verbatim>\<open>bad\<close> is a template that does not compile, whose page \<^verbatim>\<open>cfg\<close> has
  a directory in the place of its read-config, and whose page \<^verbatim>\<open>form\<close> accepts
  POST; and two requests to it, one declared multipart with a body that is no
  form data, one declared JSON with the body \<^verbatim>\<open>null\<close>.
\<close>

definition fs_site :: filesystem where
  "fs_site = \<lparr>fs_root = Dir [(''srv'', Dir
       [(''pages'', Dir
          [(''about'', Dir [(''index.html'', Dir [])]),
           (''bad'', Dir [(''index.html'', File ''{{#if}}'')]),
           (''cfg'', Dir [(''index.html'', File ''<!DOCTYPE html>''), (''get.yaml'', Dir [])]),
           (''form'', Dir [(''index.html'', File ''<form>''),
                           (''post.yaml'', File ''{send_data: null, note: x}'')])])])],
     fs_cwd = [''srv'']\<rparr>"

definition multipart_request :: request where
  "multipart_request = \<lparr>req_content_type = Some ''multipart/form-data'', req_text = ''garbage'',
     req_formData = Inl ''TypeError: Body can not be decoded as form data''\<rparr>"

definition json_null_request :: request where
  "json_null_request = \<lparr>req_content_type = Some ''application/json'', req_text = ''null'',
     req_formData = Inl ''TypeError: Body can not be decoded as form data''\<rparr>"

section \<open>Properties of the path resolver\<close>

lemma split_on_not_Nil: "split_on c xs \<noteq> []"
  by (induction xs) (auto split: list.splits)

lemma split_on_append: "split_on c (a @ c # b) = split_on c a @ split_on c b"
proof (induction a)
  case Nil
  show ?case by simp
next
  case (Cons x a)
  obtain y ys where s: "split_on c a = y # ys"
    using split_on_not_Nil [of c a] by (cases "split_on c a") auto
  show ?case using Cons s by simp
qed

lemma split_on_no_sep: "c \<notin> set s \<Longrightarrow> split_on c s = [s]"
  by (induction s) auto

lemma path_step_None: "path_step r None c = None"
  by (simp add: path_step_def)

lemma foldl_path_step_None: "foldl (path_step r) None cs = None"
  by (induction cs) (auto simp: path_step_def)

lemma resolve_append:
  "resolve fs (a @ CHR ''/'' # b) = foldl (path_step (fs_root fs)) (resolve fs a) (split_on CHR ''/'' b)"
  by (simp add: resolve_def split_on_append)

lemma resolve_child:
  assumes "resolve fs cur = Some loc" and "node_at (fs_root fs) loc = Some (Dir es)"
    and "valid_name n" and "map_of es n = Some d"
  shows "resolve fs (cur @ ''/'' @ n) = Some (loc @ [n])"
  using assms by (simp add: resolve_append split_on_no_sep valid_name_def path_step_def)

lemma node_at_append:
  "node_at r (xs @ ys) = (case node_at r xs of None \<Rightarrow> None | Some n \<Rightarrow> node_at n ys)"
proof (induction r xs rule: node_at.induct)
  case (1 n)
  show ?case by simp
next
  case (2 c x xs)
  show ?case by simp
next
  case (3 es x xs)
  then show ?case by (simp split: option.splits)
qed

lemma wf_node_at: "wf_node r \<Longrightarrow> node_at r loc = Some n \<Longrightarrow> wf_node n"
proof (induction r loc rule: node_at.induct)
  case (1 n)
  then show ?case by simp
next
  case (2 c x xs)
  then show ?case by simp
next
  case (3 es x xs)
  then show ?case
    by (auto split: option.splits dest!: map_of_SomeD)
qed

lemma first_some_SomeD: "first_some f xs = Some r \<Longrightarrow> \<exists>x \<in> set xs. f x = Some r"
  by (induction xs) (auto split: option.splits)

lemma resolve_index:
  assumes "resolve fs cur = Some loc" and "Deno_stat fs (cur @ ''/index.html'') = Some st"
  shows "resolve fs (cur @ ''/index.html'') = Some (loc @ [''index.html''])"
  using assms
  by (auto simp: Deno_stat_def resolve_append path_step_def split: option.splits node.splits)

lemma searchPath_resolves: "searchPath fs segs cur ps = Some m \<Longrightarrow> resolve fs cur \<noteq> None"
proof (cases segs)
  case Nil
  assume "searchPath fs segs cur ps = Some m"
  with Nil have "resolve fs (cur @ ''/index.html'') \<noteq> None"
    by (auto simp: Deno_stat_def Let_def split: option.splits)
  then show ?thesis
    by (cases "resolve fs cur") (auto simp: resolve_append path_step_def)
next
  case (Cons s ss)
  assume "searchPath fs segs cur ps = Some m"
  with Cons show ?thesis
    by (auto simp: Deno_readDir_def Deno_stat_def split: option.splits)
qed

lemma searchPath_within:
  assumes wf: "wf_node (fs_root fs)"
  shows "resolve fs cur = Some loc \<Longrightarrow> prefix R loc \<Longrightarrow> searchPath fs segs cur ps = Some m
    \<Longrightarrow> \<exists>loc'. resolve fs (pagePath m) = Some loc' \<and> prefix R loc'"
proof (induction segs arbitrary: cur loc ps)
  case Nil
  from Nil.prems(3) obtain st where st: "Deno_stat fs (cur @ ''/index.html'') = Some st"
    and m: "m = \<lparr>pagePath = cur @ ''/index.html'', params = ps\<rparr>"
    by (auto simp: Let_def split: option.splits)
  from resolve_index [OF Nil.prems(1) st] m Nil.prems(2) show ?case
    by (auto intro: prefix_order.trans)
next
  case (Cons seg rest)
  from Cons.prems(3) obtain entries where rd: "Deno_readDir fs cur = Some entries"
    by (auto split: option.splits)
  with Cons.prems(1) obtain es where es: "node_at (fs_root fs) loc = Some (Dir es)"
    and entries: "entries = map (\<lambda>(n, d). \<lparr>name = n, isDirectory = is_dir d\<rparr>) es"
    by (auto simp: Deno_readDir_def Deno_stat_def split: option.splits node.splits)
  from wf_node_at [OF wf es] have wfes: "\<forall>e \<in> set es. valid_name (fst e)" by simp
  let ?f = "\<lambda>entry. if \<not> isDirectory entry then None
               else if name entry = seg then
                 searchPath fs rest (cur @ ''/'' @ seg) ps
               else if is_param_dir (name entry) then
                 searchPath fs rest (cur @ ''/'' @ name entry)
                   (fmupd (param_name (name entry)) seg ps)
               else None"
  from Cons.prems(3) rd have "first_some ?f entries = Some m" by simp
  from first_some_SomeD [OF this] obtain e where e: "e \<in> set entries" and fe: "?f e = Some m"
    by blast
  from e entries obtain n d where nd: "(n, d) \<in> set es" and en: "name e = n"
    by auto
  from nd wfes have vn: "valid_name n" by auto
  from nd obtain d' where d': "map_of es n = Some d'"
    by (cases "map_of es n") (auto simp: map_of_eq_None_iff intro: rev_image_eqI)
  have child: "resolve fs (cur @ ''/'' @ n) = Some (loc @ [n])"
    by (rule resolve_child [OF Cons.prems(1) es vn d'])
  have pre: "prefix R (loc @ [n])" using Cons.prems(2) by (simp add: prefix_prefix)
  from fe en obtain ps' where "searchPath fs rest (cur @ ''/'' @ n) ps' = Some m"
    by (auto split: if_splits)
  from Cons.IH [OF child pre this] show ?case .
qed

lemma foldl_path_step_prefix:
  "''..'' \<notin> set cs \<Longrightarrow> foldl (path_step r) (Some loc) cs = Some loc' \<Longrightarrow> prefix loc loc'"
proof (induction cs arbitrary: loc)
  case Nil
  then show ?case by simp
next
  case (Cons c cs)
  from Cons.prems(2) obtain l where l: "path_step r (Some loc) c = Some l"
    by (cases "path_step r (Some loc) c") (auto simp: foldl_path_step_None)
  with Cons.prems(1) have "prefix loc l"
    by (auto simp: path_step_def split: option.splits node.splits if_splits)
  moreover from Cons.prems l Cons.IH [of l] have "prefix l loc'" by simp
  ultimately show ?case by (rule prefix_order.trans)
qed

lemma resolve_pages: "resolve fs ''./pages'' = Some l \<Longrightarrow> l = page_root fs"
  by (auto simp: resolve_def path_step_def page_root_def split: option.splits node.splits)

lemma pathSegments_dotdot: "''..'' \<in> set (pathSegments p) \<longleftrightarrow> ''..'' \<in> set (split_on CHR ''/'' p)"
  by (auto simp: pathSegments_def)

lemma resolve_exactPath:
  "resolve fs (exactPath path) =
     foldl (path_step (fs_root fs)) (resolve fs ''./pages'') (split_on CHR ''/'' path @ [''index.html''])"
proof -
  have "exactPath path = ''./pages'' @ CHR ''/'' # (path @ CHR ''/'' # ''index.html'')"
    by (simp add: exactPath_def)
  then show ?thesis
    by (simp only: resolve_append split_on_append) (simp add: split_on_no_sep)
qed

text \<open>
  Claim C1, as amended. The resolver has no containment check. The recursive
  search only descends into listed subdirectories, so its matches lie within the
  page root whatever the segments are; the exact-match fast path resolves the
  joined path as the operating system does. Hence: on a well-formed tree, a match
  lies within the page root whenever the path has no \<^verbatim>\<open>..\<close> segment or the match
  does not come from the exact-match fast path.
\<close>

theorem C1_amended:
  assumes wf: "wf_node (fs_root fs)"
    and found: "findPageWithParams fs path = Some m"
    and src: "''..'' \<notin> set (pathSegments path) \<or> Deno_stat fs (exactPath path) = None"
  shows "within_page_root fs (pagePath m)"
proof (cases "Deno_stat fs (exactPath path)")
  case None
  with found have sp: "searchPath fs (pathSegments path) ''./pages'' fmempty = Some m"
    by (simp add: findPageWithParams_def)
  from searchPath_resolves [OF sp] obtain l where l: "resolve fs ''./pages'' = Some l" by auto
  from resolve_pages [OF l] have "prefix (page_root fs) l" by simp
  from searchPath_within [OF wf l this sp] show ?thesis
    by (auto simp: within_page_root_def)
next
  case (Some st)
  with found have m: "pagePath m = exactPath path"
    by (auto simp: findPageWithParams_def)
  from Some src have nodd: "''..'' \<notin> set (split_on CHR ''/'' path @ [''index.html''])"
    by (simp add: pathSegments_dotdot)
  from Some obtain loc' where r: "resolve fs (exactPath path) = Some loc'"
    by (auto simp: Deno_stat_def split: option.splits)
  then obtain l where l: "resolve fs ''./pages'' = Some l"
    by (cases "resolve fs ''./pages''") (auto simp: resolve_exactPath foldl_path_step_None path_step_None)
  from r l have "foldl (path_step (fs_root fs)) (Some l) (split_on CHR ''/'' path @ [''index.html'']) = Some loc'"
    by (simp only: resolve_exactPath)
  from foldl_path_step_prefix [OF nodd this] resolve_pages [OF l] r m show ?thesis
    by (simp add: within_page_root_def)
qed

lemma wf_fs_escape: "wf_node (fs_root fs_escape)"
  by (simp add: fs_escape_def valid_name_def)

lemma find_escape_dotdot:
  "findPageWithParams fs_escape ''..'' = Some \<lparr>pagePath = ''./pages/[id]/index.html'', params = fmupd ''id'' ''..'' fmempty\<rparr>"
  by (simp add: findPageWithParams_def exactPath_def pathSegments_def Deno_stat_def resolve_def path_step_def fs_escape_def
      Deno_readDir_def is_param_dir_def param_name_def Let_def)

text \<open>
  Claim C1, witness: the path \<^verbatim>\<open>..\<close> has no exact match in \<open>fs_escape\<close>; the search
  binds it to \<^verbatim>\<open>[id]\<close> and stays within the page root.
\<close>

theorem C1_witness:
  "wf_node (fs_root fs_escape)
   \<and> findPageWithParams fs_escape ''..'' =
       Some \<lparr>pagePath = ''./pages/[id]/index.html'', params = fmupd ''id'' ''..'' fmempty\<rparr>
   \<and> Deno_stat fs_escape (exactPath ''..'') = None
   \<and> within_page_root fs_escape ''./pages/[id]/index.html''"
proof -
  have st: "Deno_stat fs_escape (exactPath ''..'') = None"
    by (simp add: exactPath_def Deno_stat_def resolve_def path_step_def fs_escape_def)
  from C1_amended [OF wf_fs_escape find_escape_dotdot] st wf_fs_escape find_escape_dotdot
  show ?thesis by simp
qed

text \<open>
  Claim C1 as stated fails: the path \<^verbatim>\<open>../secret\<close> is resolved by the exact-match
  fast path to \<^verbatim>\<open>/srv/secret/index.html\<close>, outside the page root \<^verbatim>\<open>/srv/pages\<close>.
\<close>

theorem C1_counterexample:
  "findPageWithParams fs_escape ''../secret'' = Some \<lparr>pagePath = ''./pages/../secret/index.html'', params = fmempty\<rparr>
   \<and> resolve fs_escape ''./pages/../secret/index.html'' = Some [''srv'', ''secret'', ''index.html'']
   \<and> \<not> within_page_root fs_escape ''./pages/../secret/index.html''"
  by (simp add: findPageWithParams_def exactPath_def Deno_stat_def resolve_def path_step_def fs_escape_def
      within_page_root_def page_root_def)

text \<open>
  Claim C5. When a content file exists at the exact joined location, the resolver
  returns that location with zero parameters, whatever the parameterized search
  would find.
\<close>

theorem C5_exact:
  "Deno_stat fs (exactPath path) = Some st \<Longrightarrow>
   findPageWithParams fs path = Some \<lparr>pagePath = exactPath path, params = fmempty\<rparr>"
  by (simp add: findPageWithParams_def)

text \<open>
  Claim C5, witness: in \<open>fs_both\<close> the search alone would match \<^verbatim>\<open>about\<close> through
  \<^verbatim>\<open>[id]\<close>, listed first; the resolver returns the exact match.
\<close>

theorem C5_witness:
  "Deno_stat fs_both (exactPath ''about'') = Some (File ''about'')
   \<and> searchPath fs_both [''about''] ''./pages'' fmempty =
       Some \<lparr>pagePath = ''./pages/[id]/index.html'', params = fmupd ''id'' ''about'' fmempty\<rparr>
   \<and> findPageWithParams fs_both ''about'' =
       Some \<lparr>pagePath = ''./pages/about/index.html'', params = fmempty\<rparr>"
proof -
  have st: "Deno_stat fs_both (exactPath ''about'') = Some (File ''about'')"
    by (simp add: exactPath_def Deno_stat_def resolve_def path_step_def fs_both_def)
  have sp: "searchPath fs_both [''about''] ''./pages'' fmempty =
       Some \<lparr>pagePath = ''./pages/[id]/index.html'', params = fmupd ''id'' ''about'' fmempty\<rparr>"
    by (simp add: Deno_stat_def resolve_def path_step_def fs_both_def
      Deno_readDir_def is_param_dir_def param_name_def Let_def)
  from C5_exact [OF st] st sp show ?thesis by (simp add: exactPath_def)
qed

lemma searchPath_Cons:
  "searchPath fs (seg # rest) cur ps =
     (case Deno_readDir fs cur of
        None \<Rightarrow> None
      | Some entries \<Rightarrow> first_some (try_entry fs seg rest cur ps) entries)"
proof -
  have "try_entry fs seg rest cur ps =
      (\<lambda>entry. if \<not> isDirectory entry then None
               else if name entry = seg then
                 searchPath fs rest (cur @ ''/'' @ seg) ps
               else if is_param_dir (name entry) then
                 searchPath fs rest (cur @ ''/'' @ name entry)
                   (fmupd (param_name (name entry)) seg ps)
               else None)"
    by (rule ext) (simp add: try_entry_def)
  then show ?thesis by (simp split: option.splits)
qed

lemma first_some_iff:
  "first_some f xs = Some r \<longleftrightarrow>
     (\<exists>before x after. xs = before @ x # after \<and> (\<forall>y \<in> set before. f y = None) \<and> f x = Some r)"
proof (induction xs)
  case Nil
  show ?case by simp
next
  case (Cons a xs)
  show ?case
  proof (cases "f a")
    case None
    have "(\<exists>before x after. a # xs = before @ x # after \<and> (\<forall>y \<in> set before. f y = None) \<and> f x = Some r)
        \<longleftrightarrow> (\<exists>before x after. xs = before @ x # after \<and> (\<forall>y \<in> set before. f y = None) \<and> f x = Some r)"
    proof
      assume "\<exists>before x after. a # xs = before @ x # after \<and> (\<forall>y \<in> set before. f y = None) \<and> f x = Some r"
      then obtain before x after where e: "a # xs = before @ x # after"
        and b: "\<forall>y \<in> set before. f y = None" and x: "f x = Some r"
        by blast
      from e x None obtain before' where "before = a # before'"
        by (cases before) auto
      with e b x show "\<exists>before x after. xs = before @ x # after \<and> (\<forall>y \<in> set before. f y = None) \<and> f x = Some r"
        by auto
    next
      assume "\<exists>before x after. xs = before @ x # after \<and> (\<forall>y \<in> set before. f y = None) \<and> f x = Some r"
      then obtain before x after where e: "xs = before @ x # after"
        and b: "\<forall>y \<in> set before. f y = None" and x: "f x = Some r"
        by blast
      from e b None have "a # xs = (a # before) @ x # after \<and> (\<forall>y \<in> set (a # before). f y = None)"
        by simp
      with x show "\<exists>before x after. a # xs = before @ x # after \<and> (\<forall>y \<in> set before. f y = None) \<and> f x = Some r"
        by blast
    qed
    with None Cons.IH show ?thesis by simp
  next
    case (Some r')
    have "(\<exists>before x after. a # xs = before @ x # after \<and> (\<forall>y \<in> set before. f y = None) \<and> f x = Some r)
        \<longleftrightarrow> r' = r"
    proof
      assume "\<exists>before x after. a # xs = before @ x # after \<and> (\<forall>y \<in> set before. f y = None) \<and> f x = Some r"
      then obtain before x after where e: "a # xs = before @ x # after"
        and b: "\<forall>y \<in> set before. f y = None" and x: "f x = Some r"
        by blast
      from e b Some have "before = []" by (cases before) auto
      with e x Some show "r' = r" by simp
    next
      assume "r' = r"
      with Some have "a # xs = [] @ a # xs \<and> (\<forall>y \<in> set []. f y = None) \<and> f a = Some r"
        by simp
      then show "\<exists>before x after. a # xs = before @ x # after \<and> (\<forall>y \<in> set before. f y = None) \<and> f x = Some r"
        by blast
    qed
    with Some show ?thesis by simp
  qed
qed

text \<open>
  Claim C4, as amended. The entries of a directory are tried in listing order,
  each one as a literal match first and as a parameter directory otherwise, and
  the first entry whose attempt succeeds gives the result: the search succeeds
  with a match exactly when the listing has an entry whose attempt yields that
  match and every entry listed before it fails. So the literal-named
  subdirectory that leads to a terminal success wins over every parameter
  directory listed after it, and over those listed before it only when none of
  them leads to a terminal success.
\<close>

theorem C4_amended:
  "(searchPath fs (seg # rest) cur ps = Some m \<longleftrightarrow>
      (\<exists>before e after.
          Deno_readDir fs cur = Some (before @ e # after) \<and>
          (\<forall>e' \<in> set before. try_entry fs seg rest cur ps e' = None) \<and>
          try_entry fs seg rest cur ps e = Some m))
   \<and> (isDirectory d \<and> name d = seg \<longrightarrow>
        try_entry fs seg rest cur ps d = searchPath fs rest (cur @ ''/'' @ seg) ps)
   \<and> (isDirectory d \<and> name d \<noteq> seg \<and> is_param_dir (name d) \<longrightarrow>
        try_entry fs seg rest cur ps d =
          searchPath fs rest (cur @ ''/'' @ name d) (fmupd (param_name (name d)) seg ps))
   \<and> (\<not> isDirectory d \<or> (name d \<noteq> seg \<and> \<not> is_param_dir (name d)) \<longrightarrow>
        try_entry fs seg rest cur ps d = None)"
proof (intro conjI)
  show "searchPath fs (seg # rest) cur ps = Some m \<longleftrightarrow>
      (\<exists>before e after.
          Deno_readDir fs cur = Some (before @ e # after) \<and>
          (\<forall>e' \<in> set before. try_entry fs seg rest cur ps e' = None) \<and>
          try_entry fs seg rest cur ps e = Some m)"
  proof (cases "Deno_readDir fs cur")
    case None
    then show ?thesis by (simp only: searchPath_Cons) simp
  next
    case (Some entries)
    then show ?thesis
      by (simp only: searchPath_Cons option.case first_some_iff [of "try_entry fs seg rest cur ps"])
         simp
  qed
qed (simp_all add: try_entry_def)

text \<open>
  Claim C4, witness: in \<open>fs_order\<close> the listing of \<^verbatim>\<open>pages\<close> is \<^verbatim>\<open>[q]\<close>, \<^verbatim>\<open>a\<close>. For
  \<^verbatim>\<open>a/c\<close> the attempt at \<^verbatim>\<open>[q]\<close> fails and the literal directory \<^verbatim>\<open>a\<close> gives the
  result; for \<^verbatim>\<open>a/b\<close> the attempt at \<^verbatim>\<open>[q]\<close> succeeds and gives the result.
\<close>

theorem C4_witness:
  "Deno_readDir fs_order ''./pages'' =
     Some ([\<lparr>name = ''[q]'', isDirectory = True\<rparr>] @ \<lparr>name = ''a'', isDirectory = True\<rparr> # [])
   \<and> try_entry fs_order ''a'' [''c''] ''./pages'' fmempty \<lparr>name = ''[q]'', isDirectory = True\<rparr> = None
   \<and> try_entry fs_order ''a'' [''c''] ''./pages'' fmempty \<lparr>name = ''a'', isDirectory = True\<rparr> =
       Some \<lparr>pagePath = ''./pages/a/[p]/index.html'', params = fmupd ''p'' ''c'' fmempty\<rparr>
   \<and> searchPath fs_order [''a'', ''c''] ''./pages'' fmempty =
       Some \<lparr>pagePath = ''./pages/a/[p]/index.html'', params = fmupd ''p'' ''c'' fmempty\<rparr>
   \<and> try_entry fs_order ''a'' [''b''] ''./pages'' fmempty \<lparr>name = ''[q]'', isDirectory = True\<rparr> =
       Some \<lparr>pagePath = ''./pages/[q]/b/index.html'', params = fmupd ''q'' ''a'' fmempty\<rparr>
   \<and> searchPath fs_order [''a'', ''b''] ''./pages'' fmempty =
       Some \<lparr>pagePath = ''./pages/[q]/b/index.html'', params = fmupd ''q'' ''a'' fmempty\<rparr>"
proof -
  let ?q = "\<lparr>name = ''[q]'', isDirectory = True\<rparr>"
  let ?a = "\<lparr>name = ''a'', isDirectory = True\<rparr>"
  have rd: "Deno_readDir fs_order ''./pages'' = Some ([?q] @ ?a # [])"
    by (simp add: Deno_stat_def resolve_def path_step_def fs_order_def Deno_readDir_def)
  have rd': "Deno_readDir fs_order ''./pages'' = Some ([] @ ?q # [?a])"
    using rd by simp
  have qc: "try_entry fs_order ''a'' [''c''] ''./pages'' fmempty ?q = None"
    by (simp add: try_entry_def Deno_stat_def resolve_def
      path_step_def fs_order_def Deno_readDir_def is_param_dir_def param_name_def Let_def)
  have ac: "try_entry fs_order ''a'' [''c''] ''./pages'' fmempty ?a =
       Some \<lparr>pagePath = ''./pages/a/[p]/index.html'', params = fmupd ''p'' ''c'' fmempty\<rparr>"
    by (simp add: try_entry_def Deno_stat_def resolve_def
      path_step_def fs_order_def Deno_readDir_def is_param_dir_def param_name_def Let_def)
  have qb: "try_entry fs_order ''a'' [''b''] ''./pages'' fmempty ?q =
       Some \<lparr>pagePath = ''./pages/[q]/b/index.html'', params = fmupd ''q'' ''a'' fmempty\<rparr>"
    by (simp add: try_entry_def Deno_stat_def resolve_def
      path_step_def fs_order_def Deno_readDir_def is_param_dir_def param_name_def Let_def)
  have "\<exists>before e after. Deno_readDir fs_order ''./pages'' = Some (before @ e # after) \<and>
      (\<forall>e' \<in> set before. try_entry fs_order ''a'' [''c''] ''./pages'' fmempty e' = None) \<and>
      try_entry fs_order ''a'' [''c''] ''./pages'' fmempty e =
        Some \<lparr>pagePath = ''./pages/a/[p]/index.html'', params = fmupd ''p'' ''c'' fmempty\<rparr>"
    using rd qc ac by (intro exI [of _ "[?q]"] exI [of _ ?a] exI [of _ "[]"]) simp
  then have sc: "searchPath fs_order (''a'' # [''c'']) ''./pages'' fmempty =
       Some \<lparr>pagePath = ''./pages/a/[p]/index.html'', params = fmupd ''p'' ''c'' fmempty\<rparr>"
    by (simp only: C4_amended [THEN conjunct1])
  have "\<exists>before e after. Deno_readDir fs_order ''./pages'' = Some (before @ e # after) \<and>
      (\<forall>e' \<in> set before. try_entry fs_order ''a'' [''b''] ''./pages'' fmempty e' = None) \<and>
      try_entry fs_order ''a'' [''b''] ''./pages'' fmempty e =
        Some \<lparr>pagePath = ''./pages/[q]/b/index.html'', params = fmupd ''q'' ''a'' fmempty\<rparr>"
    using rd' qb by (intro exI [of _ "[]"] exI [of _ ?q] exI [of _ "[?a]"]) simp
  then have sb: "searchPath fs_order (''a'' # [''b'']) ''./pages'' fmempty =
       Some \<lparr>pagePath = ''./pages/[q]/b/index.html'', params = fmupd ''q'' ''a'' fmempty\<rparr>"
    by (simp only: C4_amended [THEN conjunct1])
  from rd qc ac sc qb sb show ?thesis by (intro conjI)
qed

text \<open>
  Claim C4 as stated fails: in \<open>fs_order\<close> the literal directory \<^verbatim>\<open>a\<close> leads to a
  terminal success for the path \<^verbatim>\<open>a/b\<close>, yet the resolver returns the match through
  the parameter directory \<^verbatim>\<open>[q]\<close>, which is listed before it.
\<close>

theorem C4_counterexample:
  "searchPath fs_order [''b''] ''./pages/a'' fmempty =
       Some \<lparr>pagePath = ''./pages/a/[p]/index.html'', params = fmupd ''p'' ''b'' fmempty\<rparr>
   \<and> findPageWithParams fs_order ''a/b'' =
       Some \<lparr>pagePath = ''./pages/[q]/b/index.html'', params = fmupd ''q'' ''a'' fmempty\<rparr>"
  by (simp add: findPageWithParams_def exactPath_def pathSegments_def Deno_stat_def resolve_def
      path_step_def fs_order_def Deno_readDir_def is_param_dir_def param_name_def Let_def)

lemma route_path_Cons: "route_path cur (d # dirs) = route_path (cur @ ''/'' @ d) dirs"
  by (simp add: route_path_def)

lemma route_bindings_literal: "route_bindings (s # dirs) (s # segs) = route_bindings dirs segs"
  by (simp add: route_bindings_def)

lemma route_bindings_param:
  "d \<noteq> s \<Longrightarrow> route_bindings (d # dirs) (s # segs) = (param_name d, s) # route_bindings dirs segs"
  by (simp add: route_bindings_def)

lemma searchPath_route:
  "searchPath fs segs cur ps = Some m \<Longrightarrow>
   \<exists>dirs. length dirs = length segs \<and> pagePath m = route_path cur dirs \<and>
     (\<forall>(d, s) \<in> set (zip dirs segs). d = s \<or> is_param_dir d) \<and>
     (\<forall>k. fmlookup (params m) k =
        (case map_of (rev (route_bindings dirs segs)) k of
           Some v \<Rightarrow> Some v
         | None \<Rightarrow> fmlookup ps k))"
proof (induction segs arbitrary: cur ps)
  case Nil
  then have "pagePath m = route_path cur [] \<and> params m = ps"
    by (auto simp: Let_def route_path_def split: option.splits)
  then show ?case by (intro exI [of _ "[]"]) (simp add: route_bindings_def)
next
  case (Cons seg rest)
  from Cons.prems obtain entries where rd: "Deno_readDir fs cur = Some entries"
    by (auto split: option.splits)
  with Cons.prems have "first_some (try_entry fs seg rest cur ps) entries = Some m"
    by (simp only: searchPath_Cons option.case)
  from first_some_SomeD [OF this] obtain e where "e \<in> set entries"
    and fe: "try_entry fs seg rest cur ps e = Some m"
    by blast
  show ?case
  proof (cases "name e = seg")
    case True
    with fe have "searchPath fs rest (cur @ ''/'' @ seg) ps = Some m"
      by (simp add: try_entry_def split: if_splits)
    from Cons.IH [OF this] obtain dirs where d: "length dirs = length rest"
      "pagePath m = route_path (cur @ ''/'' @ seg) dirs"
      "\<forall>(d, s) \<in> set (zip dirs rest). d = s \<or> is_param_dir d"
      "\<forall>k. fmlookup (params m) k =
        (case map_of (rev (route_bindings dirs rest)) k of Some v \<Rightarrow> Some v | None \<Rightarrow> fmlookup ps k)"
      by blast
    then show ?thesis
      by (intro exI [of _ "seg # dirs"]) (simp add: route_path_Cons route_bindings_literal)
  next
    case False
    let ?n = "param_name (name e)"
    from False fe have pd: "is_param_dir (name e)"
      by (simp add: try_entry_def split: if_splits)
    from False fe have "searchPath fs rest (cur @ ''/'' @ name e) (fmupd ?n seg ps) = Some m"
      by (simp add: try_entry_def split: if_splits)
    from Cons.IH [OF this] obtain dirs where d: "length dirs = length rest"
      "pagePath m = route_path (cur @ ''/'' @ name e) dirs"
      "\<forall>(d, s) \<in> set (zip dirs rest). d = s \<or> is_param_dir d"
      "\<forall>k. fmlookup (params m) k =
        (case map_of (rev (route_bindings dirs rest)) k of Some v \<Rightarrow> Some v
         | None \<Rightarrow> fmlookup (fmupd ?n seg ps) k)"
      by blast
    have "\<forall>k. fmlookup (params m) k =
        (case map_of (rev (route_bindings (name e # dirs) (seg # rest))) k of Some v \<Rightarrow> Some v
         | None \<Rightarrow> fmlookup ps k)"
      using d(4) False
      by (auto simp: route_bindings_param map_add_def split: option.splits)
    with d(1,2,3) pd show ?thesis
      by (intro exI [of _ "name e # dirs"]) (simp add: route_path_Cons)
  qed
qed

text \<open>
  Claim C10, as amended. A match of the recursive search follows a route of
  directories, one per segment; a level is a parameter level when its directory
  name differs from the segment, and then the directory is a bracket directory
  whose name is bound to the segment. The parameters of the match are the
  initial ones overridden by the bindings of the parameter levels, a later
  (deeper) binding of a name overriding an earlier one: \<open>map_of\<close> on the reversed
  bindings finds the deepest binding of a name first. A level whose segment is
  literally the directory's name, brackets included, binds nothing. A match of
  the resolver is either the exact match, with no parameters, or a match of the
  search from \<^verbatim>\<open>./pages\<close> with no initial parameters.
\<close>

theorem C10_later_binding:
  "(searchPath fs segs cur ps = Some m \<longrightarrow>
      (\<exists>dirs. length dirs = length segs \<and> pagePath m = route_path cur dirs \<and>
         (\<forall>(d, s) \<in> set (zip dirs segs). d = s \<or> is_param_dir d) \<and>
         (\<forall>k. fmlookup (params m) k =
            (case map_of (rev (route_bindings dirs segs)) k of
               Some v \<Rightarrow> Some v
             | None \<Rightarrow> fmlookup ps k))))
   \<and> (findPageWithParams fs path = Some r \<longrightarrow>
        (pagePath r = exactPath path \<and> params r = fmempty) \<or>
        (\<exists>dirs. length dirs = length (pathSegments path) \<and>
           pagePath r = route_path ''./pages'' dirs \<and>
           (\<forall>(d, s) \<in> set (zip dirs (pathSegments path)). d = s \<or> is_param_dir d) \<and>
           (\<forall>k. fmlookup (params r) k =
              map_of (rev (route_bindings dirs (pathSegments path))) k)))"
proof (intro conjI impI)
  assume "searchPath fs segs cur ps = Some m"
  then show "\<exists>dirs. length dirs = length segs \<and> pagePath m = route_path cur dirs \<and>
         (\<forall>(d, s) \<in> set (zip dirs segs). d = s \<or> is_param_dir d) \<and>
         (\<forall>k. fmlookup (params m) k =
            (case map_of (rev (route_bindings dirs segs)) k of
               Some v \<Rightarrow> Some v
             | None \<Rightarrow> fmlookup ps k))"
    by (rule searchPath_route)
next
  assume found: "findPageWithParams fs path = Some r"
  show "(pagePath r = exactPath path \<and> params r = fmempty) \<or>
        (\<exists>dirs. length dirs = length (pathSegments path) \<and>
           pagePath r = route_path ''./pages'' dirs \<and>
           (\<forall>(d, s) \<in> set (zip dirs (pathSegments path)). d = s \<or> is_param_dir d) \<and>
           (\<forall>k. fmlookup (params r) k =
              map_of (rev (route_bindings dirs (pathSegments path))) k))"
  proof (cases "Deno_stat fs (exactPath path)")
    case (Some st)
    with found show ?thesis by (auto simp: findPageWithParams_def)
  next
    case None
    with found have "searchPath fs (pathSegments path) ''./pages'' fmempty = Some r"
      by (simp add: findPageWithParams_def)
    from searchPath_route [OF this] obtain dirs where
      "length dirs = length (pathSegments path)" "pagePath r = route_path ''./pages'' dirs"
      "\<forall>(d, s) \<in> set (zip dirs (pathSegments path)). d = s \<or> is_param_dir d"
      "\<forall>k. fmlookup (params r) k =
        (case map_of (rev (route_bindings dirs (pathSegments path))) k of
           Some v \<Rightarrow> Some v | None \<Rightarrow> fmlookup fmempty k)"
      by blast
    then have "length dirs = length (pathSegments path) \<and>
           pagePath r = route_path ''./pages'' dirs \<and>
           (\<forall>(d, s) \<in> set (zip dirs (pathSegments path)). d = s \<or> is_param_dir d) \<and>
           (\<forall>k. fmlookup (params r) k =
              map_of (rev (route_bindings dirs (pathSegments path))) k)"
      by (auto split: option.splits)
    then show ?thesis by blast
  qed
qed

lemma search_twice:
  "searchPath fs_twice [''1'', ''x'', ''2''] ''./pages'' fmempty =
     Some \<lparr>pagePath = ''./pages/[id]/x/[id]/index.html'', params = fmupd ''id'' ''2'' fmempty\<rparr>"
  by (simp add: Deno_stat_def resolve_def
      path_step_def fs_twice_def Deno_readDir_def is_param_dir_def param_name_def Let_def)

text \<open>
  Claim C10, witness: \<^verbatim>\<open>pages/[id]/x/[id]\<close> resolving \<^verbatim>\<open>1/x/2\<close> binds \<^verbatim>\<open>id\<close> to \<^verbatim>\<open>2\<close>,
  the value of the deeper of the two parameter levels.
\<close>

theorem C10_witness:
  "searchPath fs_twice [''1'', ''x'', ''2''] ''./pages'' fmempty =
     Some \<lparr>pagePath = ''./pages/[id]/x/[id]/index.html'', params = fmupd ''id'' ''2'' fmempty\<rparr>
   \<and> (\<exists>dirs. length dirs = length [''1'', ''x'', ''2''] \<and>
     pagePath \<lparr>pagePath = ''./pages/[id]/x/[id]/index.html'', params = fmupd ''id'' ''2'' fmempty\<rparr>
       = route_path ''./pages'' dirs \<and>
     (\<forall>(d, s) \<in> set (zip dirs [''1'', ''x'', ''2'']). d = s \<or> is_param_dir d) \<and>
     (\<forall>k. fmlookup (params \<lparr>pagePath = ''./pages/[id]/x/[id]/index.html'',
                                 params = fmupd ''id'' ''2'' fmempty\<rparr>) k =
        (case map_of (rev (route_bindings dirs [''1'', ''x'', ''2''])) k of
           Some v \<Rightarrow> Some v
         | None \<Rightarrow> fmlookup fmempty k)))"
  by (rule conjI [OF search_twice C10_later_binding [THEN conjunct1, rule_format, OF search_twice]])

text \<open>
  Claim C10 as stated fails: on the tree \<^verbatim>\<open>pages/[id]/x/[id]\<close> the path \<^verbatim>\<open>7/x/[id]\<close>
  passes both directories \<^verbatim>\<open>[id]\<close>, the deeper one as a literal match, and \<^verbatim>\<open>id\<close> is
  bound to \<^verbatim>\<open>7\<close>, the value of the shallower level; the path \<^verbatim>\<open>[id]/x/[id]\<close> is an
  exact match and binds nothing.
\<close>

theorem C10_counterexample:
  "findPageWithParams fs_twice ''7/x/[id]'' =
     Some \<lparr>pagePath = ''./pages/[id]/x/[id]/index.html'', params = fmupd ''id'' ''7'' fmempty\<rparr>
   \<and> findPageWithParams fs_twice ''[id]/x/[id]'' =
     Some \<lparr>pagePath = ''./pages/[id]/x/[id]/index.html'', params = fmempty\<rparr>"
  by (simp add: findPageWithParams_def exactPath_def pathSegments_def Deno_stat_def resolve_def
      path_step_def fs_twice_def Deno_readDir_def is_param_dir_def param_name_def Let_def)

section \<open>Properties of the dispatcher and the pipeline\<close>

lemma executeSendStrategy_eq: "executeSendStrategy = executeFetchStrategy"
  by (intro ext) (simp add: executeSendStrategy_def executeFetchStrategy_def)

lemma send_loop_eq: "send_loop cs ctx ds r = fetch_loop cs ctx ds r"
  by (induction cs arbitrary: r) (simp_all add: executeSendStrategy_eq split: sum.splits)

lemma sendDataStrategies_eq: "sendDataStrategies = fetchDataStrategies"
  by (intro ext) (simp add: sendDataStrategies_def fetchDataStrategies_def send_loop_eq
      split: jsval.splits)

lemma fetchData_returns: "\<exists>out. fetchData L yc ps q ds = Inr out"
  by (simp add: fetchData_def split: option.splits sum.splits)

lemma handlePost_returns: "\<exists>out. handlePost L yc ps q fd ds = Inr out"
  by (simp add: handlePost_def split: option.splits sum.splits)

text \<open>
  Claim C8. Both pipelines return for every input: the read pipeline \<^verbatim>\<open>fetchData\<close>
  and the write pipeline \<^verbatim>\<open>handlePost\<close> never raise. On an absent document they
  return exactly the context, and when the template expansion or the parse fails
  they return the context alone.
\<close>

theorem C8_never_raises:
  "(\<exists>out. fetchData L yc ps q ds = Inr out)
   \<and> (\<exists>out. handlePost L yc ps q fd ds = Inr out)
   \<and> fetchData L None ps q ds = Inr (Obj (read_context ps q))
   \<and> handlePost L None ps q fd ds = Inr (Obj (write_context ps q fd))
   \<and> (hb_compile L t (Obj (read_context ps q)) = Inl e \<longrightarrow>
        fetchData L (Some t) ps q ds = Inr (Obj (read_context ps q)))
   \<and> (hb_compile L u (Obj (read_context ps q)) = Inr u' \<and> yaml_parse L u' = Inl e' \<longrightarrow>
        fetchData L (Some u) ps q ds = Inr (Obj (read_context ps q)))
   \<and> (hb_compile L t (Obj (write_context ps q fd)) = Inl e \<longrightarrow>
        handlePost L (Some t) ps q fd ds = Inr (Obj (write_context ps q fd)))
   \<and> (hb_compile L u (Obj (write_context ps q fd)) = Inr u' \<and> yaml_parse L u' = Inl e' \<longrightarrow>
        handlePost L (Some u) ps q fd ds = Inr (Obj (write_context ps q fd)))"
  by (simp add: fetchData_returns handlePost_returns)
     (simp add: fetchData_def handlePost_def fetchData_try_def handlePost_try_def)

text \<open>
  Claim C8, witness: a template error (\<^verbatim>\<open>{{#if}}\<close>) and a parse error
  (\<^verbatim>\<open>[unclosed\<close>) both give the context alone, on read and on write.
\<close>

theorem C8_witness:
  "hb_compile demo_libs ''{{#if}}'' (Obj (read_context (Obj fmempty) (Obj fmempty))) = Inl ''Parse error''
   \<and> fetchData demo_libs (Some ''{{#if}}'') (Obj fmempty) (Obj fmempty) demo_strategies =
       Inr (Obj (read_context (Obj fmempty) (Obj fmempty)))
   \<and> handlePost demo_libs (Some ''{{#if}}'') (Obj fmempty) (Obj fmempty) (Obj fmempty) demo_strategies =
       Inr (Obj (write_context (Obj fmempty) (Obj fmempty) (Obj fmempty)))
   \<and> yaml_parse demo_libs ''[unclosed'' = Inl ''YAMLError''
   \<and> fetchData demo_libs (Some ''[unclosed'') (Obj fmempty) (Obj fmempty) demo_strategies =
       Inr (Obj (read_context (Obj fmempty) (Obj fmempty)))
   \<and> handlePost demo_libs (Some ''[unclosed'') (Obj fmempty) (Obj fmempty) (Obj fmempty) demo_strategies =
       Inr (Obj (write_context (Obj fmempty) (Obj fmempty) (Obj fmempty)))"
proof -
  have h1: "hb_compile demo_libs ''{{#if}}'' d = Inl ''Parse error''" for d
    by (simp add: demo_libs_def demo_template_def)
  have h2: "hb_compile demo_libs ''[unclosed'' d = Inr ''[unclosed''" for d
    by (simp add: demo_libs_def demo_template_def)
  have h3: "yaml_parse demo_libs ''[unclosed'' = Inl ''YAMLError''"
    by (simp add: demo_libs_def demo_yaml_def)
  note inst = C8_never_raises [of demo_libs None "Obj fmempty" "Obj fmempty" demo_strategies
      "Obj fmempty" "''{{#if}}''" "''Parse error''" "''[unclosed''" "''[unclosed''" "''YAMLError''"]
  from inst h1 h2 h3 show ?thesis by simp
qed










lemma fetch_loop_append:
  "fetch_loop (xs @ ys) ctx ds r =
     (case fetch_loop xs ctx ds r of Inl e \<Rightarrow> Inl e | Inr r' \<Rightarrow> fetch_loop ys ctx ds r')"
  by (induction xs arbitrary: r) (simp_all split: sum.splits)

lemma fetch_loop_untouched:
  "fetch_loop cs ctx ds r = Inr results \<Longrightarrow> \<forall>c \<in> set cs. \<not> collects c ctx ds k \<Longrightarrow>
   fmlookup results k = fmlookup r k"
proof (induction cs arbitrary: r)
  case Nil
  then show ?case by simp
next
  case (Cons c cs)
  from Cons.prems(1) obtain res key where
    res: "executeFetchStrategy c ctx ds = Inr res" and key: "get_prop c ''key'' = Inr key"
    and rest: "fetch_loop cs ctx ds
        (if truthy key \<and> res \<noteq> Undefined then fmupd (to_string key) res r else r) = Inr results"
    by (auto split: sum.splits)
  from Cons.prems(2) have later: "\<forall>c \<in> set cs. \<not> collects c ctx ds k" by simp
  from Cons.prems(2) res key have "\<not> (truthy key \<and> res \<noteq> Undefined \<and> to_string key = k)"
    by (simp add: collects_def)
  then have "fmlookup (if truthy key \<and> res \<noteq> Undefined then fmupd (to_string key) res r else r) k
      = fmlookup r k"
    by auto
  with Cons.IH [OF rest later] show ?case by simp
qed

lemma fetch_loop_later_wins:
  assumes run: "fetch_loop (cs1 @ c # cs2) ctx ds r = Inr results"
    and res: "executeFetchStrategy c ctx ds = Inr res" "res \<noteq> Undefined"
    and key: "get_prop c ''key'' = Inr key" "truthy key"
    and later: "\<forall>c' \<in> set cs2. \<not> collects c' ctx ds (to_string key)"
  shows "fmlookup results (to_string key) = Some res"
proof -
  from run obtain r1 where r1: "fetch_loop cs1 ctx ds r = Inr r1"
    and r2: "fetch_loop (c # cs2) ctx ds r1 = Inr results"
    by (auto simp: fetch_loop_append split: sum.splits)
  from r2 res key have "fetch_loop cs2 ctx ds (fmupd (to_string key) res r1) = Inr results"
    by simp
  from fetch_loop_untouched [OF this later] show ?thesis by simp
qed

lemma fetchDataStrategies_operations:
  "truthy fd \<Longrightarrow> fetchDataStrategies fd ctx ds = fetch_loop (operations fd) ctx ds fmempty"
  by (cases fd) (simp_all add: fetchDataStrategies_def)

lemma fetchDataStrategies_falsy: "\<not> truthy fd \<Longrightarrow> fetchDataStrategies fd ctx ds = Inr fmempty"
  by (simp add: fetchDataStrategies_def)

lemma shallow_merge3: "shallow_merge [a, b, c] = (a ++\<^sub>f b) ++\<^sub>f c"
  by (simp add: shallow_merge_def)

lemma read_context_add: "m ++\<^sub>f read_context ps q = fmupd ''query'' q (fmupd ''params'' ps m)"
  by (rule fmap_ext) (simp add: read_context_def)

lemma write_context_add:
  "m ++\<^sub>f write_context ps q fd = fmupd ''formData'' fd (fmupd ''query'' q (fmupd ''params'' ps m))"
  by (rule fmap_ext) (simp add: write_context_def)

lemma fetchData_success:
  assumes "text \<noteq> []"
    and "hb_compile L text (Obj (read_context ps q)) = Inr t"
    and "yaml_parse L t = Inr doc"
    and "get_prop doc ''fetch_data'' = Inr fd"
    and "fetchDataStrategies fd (Obj (read_context ps q)) ds = Inr results"
  shows "fetchData L (Some text) ps q ds =
     Inr (Obj (shallow_merge
       [if truthy fd then fmdrop ''fetch_data'' (own_entries doc) else own_entries doc,
        results, read_context ps q]))"
proof (cases "truthy fd")
  case True
  with assms show ?thesis
    by (simp add: fetchData_def fetchData_try_def shallow_merge3 read_context_add)
next
  case False
  with assms(5) have "results = fmempty" by (simp add: fetchDataStrategies_falsy)
  with False assms show ?thesis
    by (simp add: fetchData_def fetchData_try_def shallow_merge3 read_context_add)
qed

lemma handlePost_success:
  assumes "text \<noteq> []"
    and "hb_compile L text (Obj (write_context ps q fm)) = Inr t"
    and "yaml_parse L t = Inr doc"
    and "get_prop doc ''send_data'' = Inr sd"
    and "sendDataStrategies sd (Obj (write_context ps q fm)) ds = Inr results"
  shows "handlePost L (Some text) ps q fm ds =
     Inr (Obj (shallow_merge
       [if truthy sd then fmdrop ''send_data'' (own_entries doc) else own_entries doc,
        results, write_context ps q fm]))"
proof (cases "truthy sd")
  case True
  with assms show ?thesis
    by (simp add: handlePost_def handlePost_try_def shallow_merge3 write_context_add)
next
  case False
  with assms(5) have "results = fmempty"
    by (simp add: sendDataStrategies_eq fetchDataStrategies_falsy)
  with False assms show ?thesis
    by (simp add: handlePost_def handlePost_try_def shallow_merge3 write_context_add)
qed

lemma two_ops_hb:
  "hb_compile demo_libs two_ops_text (Obj (read_context (Obj fmempty) (Obj fmempty))) = Inr two_ops_text"
  by (simp add: demo_libs_def demo_template_def two_ops_text_def)

lemma two_ops_yaml: "yaml_parse demo_libs two_ops_text = Inr doc_two_ops"
  by (simp add: demo_libs_def demo_yaml_def two_ops_text_def)

lemma two_ops_fd: "get_prop doc_two_ops ''fetch_data'' = Inr (Arr ([op_a] @ op_b # []))"
  by (simp add: doc_two_ops_def op_a_def op_b_def)

lemma two_ops_results:
  "fetchDataStrategies (Arr ([op_a] @ op_b # [])) (Obj (read_context (Obj fmempty) (Obj fmempty)))
     demo_strategies = Inr (fmupd ''k'' (Str ''b'') fmempty)"
  by (simp add: fetchDataStrategies_def executeFetchStrategy_def registry_get_def
      demo_strategies_def op_a_def op_b_def)

lemma two_ops_nonempty: "two_ops_text \<noteq> []"
  by (simp add: two_ops_text_def)

lemmas demo_defs = demo_libs_def demo_yaml_def demo_template_def demo_json_def demo_strategies_def
  doc_falsy_def doc_null_send_def doc_reserved_op_def doc_two_ops_def doc_send_def

lemmas pipeline_defs = fetchData_def fetchData_try_def handlePost_def handlePost_try_def
  fetchDataStrategies_def sendDataStrategies_def executeFetchStrategy_def executeSendStrategy_def
  registry_get_def read_context_def write_context_def output_field_def

text \<open>
  Claim C6, as amended. For every successful run of the read pipeline the output is
  the left-to-right shallow merge of the parsed document, the operation results
  and the context, where the reserved key is taken out of the parsed document
  when its value is truthy and stays in it when its value is falsy. The context
  fields are never shadowed, an operation result shadows a document field, and
  of the operations collected under one key the last declared wins.
\<close>

theorem C6_merge_order:
  assumes "text \<noteq> []"
    and "hb_compile L text (Obj (read_context ps q)) = Inr t"
    and "yaml_parse L t = Inr doc"
    and "get_prop doc ''fetch_data'' = Inr fd"
    and "fetchDataStrategies fd (Obj (read_context ps q)) ds = Inr results"
  shows "let out = shallow_merge
               [if truthy fd then fmdrop ''fetch_data'' (own_entries doc) else own_entries doc,
                results, read_context ps q]
     in fetchData L (Some text) ps q ds = Inr (Obj out)
     \<and> fmlookup out ''params'' = Some ps \<and> fmlookup out ''query'' = Some q
     \<and> (\<forall>k. k \<noteq> ''params'' \<and> k \<noteq> ''query'' \<and> k |\<in>| fmdom results \<longrightarrow>
            fmlookup out k = fmlookup results k)
     \<and> (\<forall>cs1 c cs2 res key.
            fd = Arr (cs1 @ c # cs2) \<and>
            executeFetchStrategy c (Obj (read_context ps q)) ds = Inr res \<and> res \<noteq> Undefined \<and>
            get_prop c ''key'' = Inr key \<and> truthy key \<and>
            (\<forall>c' \<in> set cs2. \<not> collects c' (Obj (read_context ps q)) ds (to_string key)) \<longrightarrow>
            fmlookup results (to_string key) = Some res)"
proof -
  let ?out = "shallow_merge
         [if truthy fd then fmdrop ''fetch_data'' (own_entries doc) else own_entries doc,
          results, read_context ps q]"
  have run: "fetchData L (Some text) ps q ds = Inr (Obj ?out)"
    by (rule fetchData_success [OF assms])
  have ctx: "fmlookup ?out ''params'' = Some ps \<and> fmlookup ?out ''query'' = Some q"
    by (simp add: shallow_merge3 read_context_def)
  have ops: "\<forall>k. k \<noteq> ''params'' \<and> k \<noteq> ''query'' \<and> k |\<in>| fmdom results \<longrightarrow>
            fmlookup ?out k = fmlookup results k"
    by (simp add: shallow_merge3 read_context_def)
  have later: "\<forall>cs1 c cs2 res key.
            fd = Arr (cs1 @ c # cs2) \<and>
            executeFetchStrategy c (Obj (read_context ps q)) ds = Inr res \<and> res \<noteq> Undefined \<and>
            get_prop c ''key'' = Inr key \<and> truthy key \<and>
            (\<forall>c' \<in> set cs2. \<not> collects c' (Obj (read_context ps q)) ds (to_string key)) \<longrightarrow>
            fmlookup results (to_string key) = Some res"
  proof (intro allI impI, elim conjE)
    fix cs1 c cs2 res key
    assume fd: "fd = Arr (cs1 @ c # cs2)"
      and a: "executeFetchStrategy c (Obj (read_context ps q)) ds = Inr res" "res \<noteq> Undefined"
        "get_prop c ''key'' = Inr key" "truthy key"
        "\<forall>c' \<in> set cs2. \<not> collects c' (Obj (read_context ps q)) ds (to_string key)"
    from fd assms(5) have "fetch_loop (cs1 @ c # cs2) (Obj (read_context ps q)) ds fmempty = Inr results"
      by (simp add: fetchDataStrategies_def)
    from fetch_loop_later_wins [OF this a] show "fmlookup results (to_string key) = Some res" .
  qed
  from run ctx ops later show ?thesis
    unfolding Let_def by (intro conjI) (elim conjE, assumption)+
qed

text \<open>
  Claim C6, witness: two operations declare the key \<^verbatim>\<open>k\<close> and the document has a
  field \<^verbatim>\<open>params\<close>; the output has the later operation's result under \<^verbatim>\<open>k\<close>, the
  context's \<^verbatim>\<open>params\<close>, and no reserved key.
\<close>

theorem C6_witness:
  "hb_compile demo_libs two_ops_text (Obj (read_context (Obj fmempty) (Obj fmempty))) = Inr two_ops_text
   \<and> yaml_parse demo_libs two_ops_text = Inr doc_two_ops
   \<and> get_prop doc_two_ops ''fetch_data'' = Inr (Arr ([op_a] @ op_b # []))
   \<and> get_prop doc_two_ops ''params'' = Inr (Str ''x'')
   \<and> executeFetchStrategy op_a (Obj (read_context (Obj fmempty) (Obj fmempty))) demo_strategies = Inr (Str ''a'')
   \<and> executeFetchStrategy op_b (Obj (read_context (Obj fmempty) (Obj fmempty))) demo_strategies = Inr (Str ''b'')
   \<and> output_field (fetchData demo_libs (Some two_ops_text) (Obj fmempty) (Obj fmempty) demo_strategies)
        ''k'' = Some (Str ''b'')
   \<and> output_field (fetchData demo_libs (Some two_ops_text) (Obj fmempty) (Obj fmempty) demo_strategies)
        ''params'' = Some (Obj fmempty)
   \<and> output_field (fetchData demo_libs (Some two_ops_text) (Obj fmempty) (Obj fmempty) demo_strategies)
        ''fetch_data'' = None"
proof -
  let ?ctx = "Obj (read_context (Obj fmempty) (Obj fmempty))"
  let ?run = "fetchData demo_libs (Some two_ops_text) (Obj fmempty) (Obj fmempty) demo_strategies"
  have a: "executeFetchStrategy op_a ?ctx demo_strategies = Inr (Str ''a'')"
    by (simp add: executeFetchStrategy_def registry_get_def demo_strategies_def op_a_def)
  have b: "executeFetchStrategy op_b ?ctx demo_strategies = Inr (Str ''b'')"
    by (simp add: executeFetchStrategy_def registry_get_def demo_strategies_def op_b_def)
  have p: "get_prop doc_two_ops ''params'' = Inr (Str ''x'')"
    by (simp add: doc_two_ops_def)
  have kb: "get_prop op_b ''key'' = Inr (Str ''k'')" by (simp add: op_b_def)
  note inst = C6_merge_order [OF two_ops_nonempty two_ops_hb two_ops_yaml two_ops_fd two_ops_results,
      unfolded Let_def]
  note run = inst [THEN conjunct1]
  note ps = inst [THEN conjunct2, THEN conjunct1]
  note later = inst [THEN conjunct2, THEN conjunct2, THEN conjunct2, THEN conjunct2, rule_format,
      of "[op_a]" op_b "[]" "Str ''b''" "Str ''k''"]
  note ops = inst [THEN conjunct2, THEN conjunct2, THEN conjunct2, THEN conjunct1, rule_format,
      of "''k''"]
  have k1: "fmlookup (fmupd ''k'' (Str ''b'') fmempty) ''k'' = Some (Str ''b'')"
    using later b kb by simp
  have k: "output_field ?run ''k'' = Some (Str ''b'')"
    using ops k1 by (simp add: output_field_def run)
  have pp: "output_field ?run ''params'' = Some (Obj fmempty)"
    using ps by (simp add: output_field_def run)
  have f: "output_field ?run ''fetch_data'' = None"
    by (simp add: output_field_def run shallow_merge3 read_context_def)
  from k pp f two_ops_hb two_ops_yaml two_ops_fd a b p show ?thesis
    by (intro conjI)
qed

text \<open>
  Claim C6 as stated fails: for the document \<^verbatim>\<open>{fetch_data: false, title: x}\<close> the
  merge of the document minus the reserved key, no results and the context has no
  field \<^verbatim>\<open>fetch_data\<close>, while the output of the pipeline has it.
\<close>

theorem C6_counterexample:
  "yaml_parse demo_libs ''{fetch_data: false, title: x}'' = Inr doc_falsy
   \<and> fmlookup (shallow_merge [fmdrop ''fetch_data'' (own_entries doc_falsy), fmempty,
         read_context (Obj fmempty) (Obj fmempty)]) ''fetch_data'' = None
   \<and> output_field (fetchData demo_libs (Some ''{fetch_data: false, title: x}'') (Obj fmempty)
        (Obj fmempty) demo_strategies) ''fetch_data'' = Some (Bool False)"
  by (simp add: demo_defs pipeline_defs shallow_merge3)

lemma fetchData_reserved:
  assumes "text \<noteq> []"
    and "hb_compile L text (Obj (read_context ps q)) = Inr t"
    and "yaml_parse L t = Inr doc"
    and "get_prop doc ''fetch_data'' = Inr fd"
    and "truthy fd"
    and "\<forall>c \<in> set (operations fd). \<not> collects c (Obj (read_context ps q)) ds ''fetch_data''"
  shows "\<exists>out. fetchData L (Some text) ps q ds = Inr (Obj out) \<and> ''fetch_data'' |\<notin>| fmdom out"
proof (cases "fetchDataStrategies fd (Obj (read_context ps q)) ds")
  case (Inl e)
  with assms have "fetchData L (Some text) ps q ds = Inr (Obj (read_context ps q))"
    by (simp add: fetchData_def fetchData_try_def)
  then show ?thesis by (simp add: read_context_def)
next
  case (Inr results)
  with assms(5) have "fetch_loop (operations fd) (Obj (read_context ps q)) ds fmempty = Inr results"
    by (simp add: fetchDataStrategies_operations)
  from fetch_loop_untouched [OF this assms(6)] have "fmlookup results ''fetch_data'' = None"
    by simp
  then have "''fetch_data'' |\<notin>| fmdom results" by (simp add: fmdom_notI)
  with fetchData_success [OF assms(1-4) Inr] assms(5) show ?thesis
    by (simp add: shallow_merge3 read_context_def)
qed

lemma handlePost_reserved:
  assumes "text \<noteq> []"
    and "hb_compile L text (Obj (write_context ps q fm)) = Inr t"
    and "yaml_parse L t = Inr doc"
    and "get_prop doc ''send_data'' = Inr sd"
    and "truthy sd"
    and "\<forall>c \<in> set (operations sd). \<not> collects c (Obj (write_context ps q fm)) ds ''send_data''"
  shows "\<exists>out. handlePost L (Some text) ps q fm ds = Inr (Obj out) \<and> ''send_data'' |\<notin>| fmdom out"
proof (cases "sendDataStrategies sd (Obj (write_context ps q fm)) ds")
  case (Inl e)
  with assms have "handlePost L (Some text) ps q fm ds = Inr (Obj (write_context ps q fm))"
    by (simp add: handlePost_def handlePost_try_def)
  then show ?thesis by (simp add: write_context_def)
next
  case (Inr results)
  with assms(5) have "fetch_loop (operations sd) (Obj (write_context ps q fm)) ds fmempty = Inr results"
    by (simp add: sendDataStrategies_eq fetchDataStrategies_operations)
  from fetch_loop_untouched [OF this assms(6)] have "fmlookup results ''send_data'' = None"
    by simp
  then have "''send_data'' |\<notin>| fmdom results" by (simp add: fmdom_notI)
  with handlePost_success [OF assms(1-4) Inr] assms(5) show ?thesis
    by (simp add: shallow_merge3 write_context_def)
qed

lemma collects_op_a:
  "\<not> collects op_a ctx demo_strategies ''fetch_data''"
  by (simp add: collects_def op_a_def split: sum.splits)

lemma collects_op_b:
  "\<not> collects op_b ctx demo_strategies ''fetch_data''"
  by (simp add: collects_def op_b_def split: sum.splits)

lemma collects_op_send:
  "\<not> collects op_send ctx demo_strategies ''send_data''"
  by (simp add: collects_def op_send_def split: sum.splits)

text \<open>
  Claim C7, as amended. When the reserved key's value is truthy (so that it is
  consumed) and no operation is collected under the reserved key's own name, the
  reserved key does not appear in the output, on read (\<^verbatim>\<open>fetch_data\<close>) and on write
  (\<^verbatim>\<open>send_data\<close>).
\<close>

theorem C7_reserved_key:
  assumes "text \<noteq> []"
    and "hb_compile L text (Obj (read_context ps q)) = Inr t"
    and "yaml_parse L t = Inr doc"
    and "get_prop doc ''fetch_data'' = Inr fd"
    and "truthy fd"
    and "\<forall>c \<in> set (operations fd). \<not> collects c (Obj (read_context ps q)) ds ''fetch_data''"
    and "wtext \<noteq> []"
    and "hb_compile L wtext (Obj (write_context ps q fm)) = Inr wt"
    and "yaml_parse L wt = Inr wdoc"
    and "get_prop wdoc ''send_data'' = Inr sd"
    and "truthy sd"
    and "\<forall>c \<in> set (operations sd). \<not> collects c (Obj (write_context ps q fm)) ds ''send_data''"
  shows "(\<exists>out. fetchData L (Some text) ps q ds = Inr (Obj out) \<and> ''fetch_data'' |\<notin>| fmdom out)
     \<and> (\<exists>out. handlePost L (Some wtext) ps q fm ds = Inr (Obj out) \<and> ''send_data'' |\<notin>| fmdom out)"
  using fetchData_reserved [OF assms(1-6)] handlePost_reserved [OF assms(7-12)] by (rule conjI)

text \<open>
  Claim C7, witness: a read document with two operations and a write document
  with one, all collected under \<^verbatim>\<open>k\<close>; neither output has the reserved key.
\<close>

theorem C7_witness:
  "get_prop doc_two_ops ''fetch_data'' = Inr (Arr ([op_a] @ op_b # []))
   \<and> get_prop doc_send ''send_data'' = Inr op_send
   \<and> output_field (fetchData demo_libs (Some two_ops_text) (Obj fmempty) (Obj fmempty) demo_strategies)
        ''fetch_data'' = None
   \<and> output_field (fetchData demo_libs (Some two_ops_text) (Obj fmempty) (Obj fmempty) demo_strategies)
        ''k'' = Some (Str ''b'')
   \<and> output_field (handlePost demo_libs (Some send_text) (Obj fmempty) (Obj fmempty) (Obj fmempty)
        demo_strategies) ''send_data'' = None
   \<and> output_field (handlePost demo_libs (Some send_text) (Obj fmempty) (Obj fmempty) (Obj fmempty)
        demo_strategies) ''k'' = Some (Str ''v'')"
proof -
  let ?r = "fetchData demo_libs (Some two_ops_text) (Obj fmempty) (Obj fmempty) demo_strategies"
  let ?w = "handlePost demo_libs (Some send_text) (Obj fmempty) (Obj fmempty) (Obj fmempty)
        demo_strategies"
  have w1: "send_text \<noteq> []" by (simp add: send_text_def)
  have w2: "hb_compile demo_libs send_text
      (Obj (write_context (Obj fmempty) (Obj fmempty) (Obj fmempty))) = Inr send_text"
    by (simp add: demo_libs_def demo_template_def send_text_def)
  have w3: "yaml_parse demo_libs send_text = Inr doc_send"
    by (simp add: demo_libs_def demo_yaml_def send_text_def)
  have w4: "get_prop doc_send ''send_data'' = Inr op_send"
    by (simp add: doc_send_def op_send_def)
  have w5: "truthy op_send" by (simp add: op_send_def)
  have w6: "\<forall>c \<in> set (operations op_send).
      \<not> collects c (Obj (write_context (Obj fmempty) (Obj fmempty) (Obj fmempty))) demo_strategies
          ''send_data''"
    using collects_op_send by (simp add: op_send_def)
  have r5: "truthy (Arr ([op_a] @ op_b # []))" by simp
  have r6: "\<forall>c \<in> set (operations (Arr ([op_a] @ op_b # []))).
      \<not> collects c (Obj (read_context (Obj fmempty) (Obj fmempty))) demo_strategies ''fetch_data''"
    using collects_op_a collects_op_b by simp
  note inst = C7_reserved_key [OF two_ops_nonempty two_ops_hb two_ops_yaml two_ops_fd r5 r6
      w1 w2 w3 w4 w5 w6]
  from inst [THEN conjunct1] have rf: "output_field ?r ''fetch_data'' = None"
    by (auto simp: output_field_def fmdom_notD)
  from inst [THEN conjunct2] have wf: "output_field ?w ''send_data'' = None"
    by (auto simp: output_field_def fmdom_notD)
  have rk: "output_field ?r ''k'' = Some (Str ''b'')"
    by (simp add: two_ops_text_def demo_defs pipeline_defs)
  have wk: "output_field ?w ''k'' = Some (Str ''v'')"
    by (simp add: send_text_def demo_defs pipeline_defs)
  from two_ops_fd w4 rf rk wf wk show ?thesis by (intro conjI)
qed

text \<open>
  Claim C7 as stated fails: a write document with \<^verbatim>\<open>send_data: null\<close> keeps the
  field \<^verbatim>\<open>send_data\<close> in the output, and a read document whose operation declares
  the key \<^verbatim>\<open>fetch_data\<close> has the operation's result under \<^verbatim>\<open>fetch_data\<close>.
\<close>

theorem C7_counterexample:
  "output_field (handlePost demo_libs (Some ''{send_data: null, note: x}'') (Obj fmempty)
      (Obj fmempty) (Obj fmempty) demo_strategies) ''send_data'' = Some Null
   \<and> output_field (fetchData demo_libs (Some ''{fetch_data: {type: echo, key: fetch_data, value: v}}'')
        (Obj fmempty) (Obj fmempty) demo_strategies) ''fetch_data'' = Some (Str ''v'')"
  by (simp add: demo_defs pipeline_defs)

section \<open>Properties of the request flows\<close>

lemmas fs_defs = findPageWithParams_def exactPath_def pathSegments_def Deno_stat_def resolve_def
  path_step_def Deno_readDir_def Deno_readTextFile_def is_param_dir_def param_name_def Let_def







text \<open>
  A read-config that cannot be loaded is treated as absent: the page is served.
\<close>

lemma config_load_failure:
  "Deno_stat fs_site ''./pages/cfg/get.yaml'' = Some (Dir [])
   \<and> Deno_readTextFile fs_site ''./pages/cfg/get.yaml'' = None
   \<and> renderPage demo_libs fs_site ''cfg'' (Obj fmempty) demo_strategies =
       \<lparr>status = 200, body = ''<!DOCTYPE html>'', content_type = Some ''text/html''\<rparr>"
  by (simp add: renderPage_def fetchPage_def fs_defs fs_site_def page_data_def
      isPureHtml_def demo_libs_def ascii_trim_def is_space_def ascii_lower_def)

lemma find_form:
  "findPageWithParams fs_site ''form'' =
     Some \<lparr>pagePath = ''./pages/form/index.html'', params = fmempty\<rparr>"
  by (simp add: fs_defs fs_site_def)

lemma allowed_form: "isPostAllowed fs_site ''./pages/form/index.html'' ''form''"
  by (simp add: isPostAllowed_def fs_defs fs_site_def)

text \<open>
  Claim C2 fails on the code. The path \<^verbatim>\<open>form\<close> resolves and its permission check
  passes; for a request declared multipart whose body is no form data,
  \<^verbatim>\<open>req.formData()\<close> throws and nothing catches it, and for a JSON request with the
  body \<^verbatim>\<open>null\<close>, \<^verbatim>\<open>Object.keys(formData)\<close> throws: in both cases an exception
  leaves \<^verbatim>\<open>handlePostRequest\<close> and no response with status 200 is made.
\<close>

theorem C2_malformed_body_raises:
  "findPageWithParams fs_site ''form'' =
     Some \<lparr>pagePath = ''./pages/form/index.html'', params = fmempty\<rparr>
   \<and> isPostAllowed fs_site ''./pages/form/index.html'' ''form''
   \<and> handlePostRequest demo_libs fs_site ''form'' multipart_request demo_strategies =
       Inl ''TypeError: Body can not be decoded as form data''
   \<and> handlePostRequest demo_libs fs_site ''form'' json_null_request demo_strategies =
       Inl ''TypeError: Cannot convert undefined or null to object''"
proof -
  have m: "parseFormData demo_libs multipart_request = Inl ''TypeError: Body can not be decoded as form data''"
    by (simp add: parseFormData_def header_includes_def multipart_request_def)
  have j: "parseFormData demo_libs json_null_request = Inr Null"
    by (simp add: parseFormData_def header_includes_def json_null_request_def demo_libs_def demo_json_def)
  from m j find_form allowed_form show ?thesis
    by (simp add: handlePostRequest_def)
qed

text \<open>
  What holds of the write flow: once the path resolves, the permission check
  passes and the body decodes to a value other than \<^verbatim>\<open>null\<close>, there is data to
  answer with, whatever the write-config and its operations do, and the response
  is 200 with the JSON text of the data as its body when \<^verbatim>\<open>JSON.stringify\<close> gives one.
\<close>

lemma handlePostRequest_ok:
  assumes "findPageWithParams fs path = Some match"
    and "isPostAllowed fs (pagePath match) path"
    and "parseFormData L req = Inr formData"
    and "formData \<noteq> Null" "formData \<noteq> Undefined"
  shows "\<exists>data. handlePostRequest L fs path req ds =
     (case json_stringify L data of
        Inl e \<Rightarrow> Inl e
      | Inr json \<Rightarrow>
          Inr \<lparr>status = 200, body = json, content_type = Some ''application/json''\<rparr>)"
proof -
  from assms(4,5) obtain ks where ks: "Object_keys formData = Inr ks"
    by (cases formData) auto
  let ?ctx = "Inr (Obj (write_context (params_val (params match)) (Obj fmempty) formData))"
  let ?data = "case loadPostYaml fs (pagePath match) of
        None \<Rightarrow> ?ctx
      | Some text \<Rightarrow>
          if text = [] then ?ctx
          else handlePost L (Some text) (params_val (params match)) (Obj fmempty) formData ds"
  have "\<exists>d. ?data = Inr d"
  proof (cases "loadPostYaml fs (pagePath match)")
    case None
    then show ?thesis by simp
  next
    case (Some yml)
    with handlePost_returns [of L "Some yml" "params_val (params match)" "Obj fmempty" formData ds]
    show ?thesis by auto
  qed
  then obtain d where "?data = Inr d" by blast
  with assms ks have "handlePostRequest L fs path req ds =
     (case json_stringify L d of
        Inl e \<Rightarrow> Inl e
      | Inr json \<Rightarrow>
          Inr \<lparr>status = 200, body = json, content_type = Some ''application/json''\<rparr>)"
    by (simp add: handlePostRequest_def)
  then show ?thesis by blast
qed

end
